theory Spec2Isabelle
  imports Complex_Main
begin

section \<open>JavaScript strings and the regular expressions of the sources\<close>

text \<open>
  Strings are lists of characters; a character is a code unit below 256. The character
  classes below are the JavaScript classes \<^verbatim>\<open>\w\<close>, \<^verbatim>\<open>\d\<close>, \<^verbatim>\<open>\s\<close> and \<^verbatim>\<open>[A-Z]\<close> on these
  characters, and the literals that the sources match are ASCII.
\<close>

definition digits :: string where
  "digits = ''0123456789''"

definition upperLetters :: string where
  "upperLetters = ''ABCDEFGHIJKLMNOPQRSTUVWXYZ''"

definition lowerLetters :: string where
  "lowerLetters = ''abcdefghijklmnopqrstuvwxyz''"

definition isDigit :: "char \<Rightarrow> bool" where
  "isDigit c = (c \<in> set digits)"

definition isUpper :: "char \<Rightarrow> bool" where
  "isUpper c = (c \<in> set upperLetters)"

definition isLower :: "char \<Rightarrow> bool" where
  "isLower c = (c \<in> set lowerLetters)"

definition isWordChar :: "char \<Rightarrow> bool" where
  "isWordChar c = (isDigit c \<or> isUpper c \<or> isLower c \<or> c = CHR ''_'')"

text \<open>
  Space, tab, line feed, vertical tab, form feed, carriage return and the no-break space
  U+00A0.
\<close>

definition isSpace :: "char \<Rightarrow> bool" where
  "isSpace c =
     (c \<in> set [CHR '' '', CHR 0x09, CHR 0x0A, CHR 0x0B, CHR 0x0C, CHR 0x0D, CHR 0xA0])"

text \<open>
  The capital letters beyond ASCII, U+00C0 to U+00DE without the multiplication sign
  U+00D7, and their small letters, U+00E0 to U+00FE without the division sign U+00F7.
\<close>

definition upperLatin :: string where
  "upperLatin =
     [CHR 0xC0, CHR 0xC1, CHR 0xC2, CHR 0xC3, CHR 0xC4, CHR 0xC5, CHR 0xC6, CHR 0xC7,
      CHR 0xC8, CHR 0xC9, CHR 0xCA, CHR 0xCB, CHR 0xCC, CHR 0xCD, CHR 0xCE, CHR 0xCF,
      CHR 0xD0, CHR 0xD1, CHR 0xD2, CHR 0xD3, CHR 0xD4, CHR 0xD5, CHR 0xD6,
      CHR 0xD8, CHR 0xD9, CHR 0xDA, CHR 0xDB, CHR 0xDC, CHR 0xDD, CHR 0xDE]"

definition lowerLatin :: string where
  "lowerLatin =
     [CHR 0xE0, CHR 0xE1, CHR 0xE2, CHR 0xE3, CHR 0xE4, CHR 0xE5, CHR 0xE6, CHR 0xE7,
      CHR 0xE8, CHR 0xE9, CHR 0xEA, CHR 0xEB, CHR 0xEC, CHR 0xED, CHR 0xEE, CHR 0xEF,
      CHR 0xF0, CHR 0xF1, CHR 0xF2, CHR 0xF3, CHR 0xF4, CHR 0xF5, CHR 0xF6,
      CHR 0xF8, CHR 0xF9, CHR 0xFA, CHR 0xFB, CHR 0xFC, CHR 0xFD, CHR 0xFE]"

definition lowerChar :: "char \<Rightarrow> char" where
  "lowerChar c =
     (case map_of (zip (upperLetters @ upperLatin) (lowerLetters @ lowerLatin)) c of
        None \<Rightarrow> c
      | Some d \<Rightarrow> d)"

definition toLowerCase :: "string \<Rightarrow> string" where
  "toLowerCase s = map lowerChar s"

text \<open>Equality of two characters under a regular expression's \<^verbatim>\<open>i\<close> flag (when \<open>ci\<close>).\<close>

definition sameChar :: "bool \<Rightarrow> char \<Rightarrow> char \<Rightarrow> bool" where
  "sameChar ci a b = (if ci then lowerChar a = lowerChar b else a = b)"

text \<open>
  \<open>matchLit ci lit s\<close>: the literal \<open>lit\<close> matches at the front of \<open>s\<close>; the result is
  the rest of \<open>s\<close> after the match.
\<close>

fun matchLit :: "bool \<Rightarrow> string \<Rightarrow> string \<Rightarrow> string option" where
  "matchLit ci [] s = Some s"
| "matchLit ci (l # ls) [] = None"
| "matchLit ci (l # ls) (c # cs) = (if sameChar ci l c then matchLit ci ls cs else None)"

text \<open>
  The assertion \<^verbatim>\<open>\b\<close> between a character \<open>a\<close> (absent at the start of the text) and
  the text \<open>s\<close> that follows: exactly one side is a word character.
\<close>

definition wordBefore :: "char option \<Rightarrow> bool" where
  "wordBefore a = (case a of None \<Rightarrow> False | Some c \<Rightarrow> isWordChar c)"

definition wordAfter :: "string \<Rightarrow> bool" where
  "wordAfter s = (case s of [] \<Rightarrow> False | c # _ \<Rightarrow> isWordChar c)"

definition boundary :: "char option \<Rightarrow> string \<Rightarrow> bool" where
  "boundary a s = (wordBefore a \<noteq> wordAfter s)"

text \<open>
  Every regular expression that the sources only \<^emph>\<open>test\<close> is an alternation of literals,
  each with an optional \<^verbatim>\<open>\b\<close> in front and an optional \<^verbatim>\<open>\b\<close> behind:
  \<^verbatim>\<open>/\b(EST|EDT|Eastern)\b/\<close> has three alternatives with both assertions, while
  \<^verbatim>\<open>/\bLos Angeles|LA\b/\<close> is \<^verbatim>\<open>\bLos Angeles\<close> or \<^verbatim>\<open>LA\b\<close>.
\<close>

datatype alt = Alt (lead: bool) (lit: string) (trail: bool)

type_synonym regex = "alt list"

text \<open>One alternative at one position: \<open>prev\<close> is the character before the position.\<close>

definition altHere :: "bool \<Rightarrow> alt \<Rightarrow> char option \<Rightarrow> string \<Rightarrow> bool" where
  "altHere ci a prev s =
     ((lead a \<longrightarrow> boundary prev s) \<and>
      (case matchLit ci (lit a) s of
         None \<Rightarrow> False
       | Some rest \<Rightarrow>
           (trail a \<longrightarrow>
              boundary (if lit a = [] then prev else Some (last (take (length (lit a)) s))) rest)))"

fun altFrom :: "bool \<Rightarrow> alt \<Rightarrow> char option \<Rightarrow> string \<Rightarrow> bool" where
  "altFrom ci a prev [] = altHere ci a prev []"
| "altFrom ci a prev (c # cs) = (altHere ci a prev (c # cs) \<or> altFrom ci a (Some c) cs)"

text \<open>\<^verbatim>\<open>pattern.test(text)\<close>: some alternative matches at some position.\<close>

definition test :: "bool \<Rightarrow> regex \<Rightarrow> string \<Rightarrow> bool" where
  "test ci r text = list_ex (\<lambda>a. altFrom ci a None text) r"

text \<open>A whole word, \<^verbatim>\<open>\bw\b\<close>, and the alternation \<^verbatim>\<open>\b(w1|w2|...)\b\<close>.\<close>

definition words :: "string list \<Rightarrow> regex" where
  "words ws = map (\<lambda>w. Alt True w True) ws"

section \<open>The timezone handler\<close>

subsection \<open>\<^verbatim>\<open>parseTimezoneFromText\<close>\<close>

definition timezonePatterns :: "(regex \<times> string) list" where
  "timezonePatterns =
    [(words [''EST'', ''EDT'', ''Eastern''], ''America/New_York''),
     (words [''CST'', ''CDT'', ''Central''], ''America/Chicago''),
     (words [''MST'', ''MDT'', ''Mountain''], ''America/Denver''),
     (words [''PST'', ''PDT'', ''Pacific''], ''America/Los_Angeles''),
     (words [''GMT'', ''UTC''], ''Europe/London''),
     (words [''BST'', ''London''], ''Europe/London''),
     (words [''CET'', ''Paris'', ''Berlin''], ''Europe/Paris''),
     (words [''IST'', ''India''], ''Asia/Kolkata''),
     (words [''JST'', ''Japan'', ''Tokyo''], ''Asia/Tokyo''),
     (words [''AEST'', ''Sydney'', ''Australia''], ''Australia/Sydney''),
     (words [''New York''], ''America/New_York''),
     (words [''Chicago''], ''America/Chicago''),
     ([Alt True ''Los Angeles'' False, Alt False ''LA'' True], ''America/Los_Angeles''),
     ([Alt True ''San Francisco'' False, Alt False ''SF'' True], ''America/Los_Angeles''),
     (words [''Seattle''], ''America/Los_Angeles''),
     (words [''Denver''], ''America/Denver''),
     (words [''London''], ''Europe/London''),
     (words [''Paris''], ''Europe/Paris''),
     (words [''Berlin''], ''Europe/Berlin''),
     (words [''Dubai''], ''Asia/Dubai''),
     (words [''Singapore''], ''Asia/Singapore''),
     (words [''Hong Kong''], ''Asia/Hong_Kong''),
     (words [''Tokyo''], ''Asia/Tokyo''),
     (words [''Sydney''], ''Australia/Sydney'')]"

text \<open>The \<^verbatim>\<open>for ... of\<close> loop with its early return; \<open>None\<close> is \<^verbatim>\<open>null\<close>.\<close>

fun firstMatch :: "(regex \<times> string) list \<Rightarrow> string \<Rightarrow> string option" where
  "firstMatch [] text = None"
| "firstMatch ((pattern, timezone) # rest) text =
     (if test True pattern text then Some timezone else firstMatch rest text)"

definition parseTimezoneFromText :: "string \<Rightarrow> string option" where
  "parseTimezoneFromText text = firstMatch timezonePatterns text"

subsection \<open>Regular expressions with capture groups\<close>

text \<open>
  \<^verbatim>\<open>text.match(pattern)\<close> without the \<^verbatim>\<open>g\<close> flag returns the leftmost match: the pattern
  is tried at every position from the left. \<open>f prev s\<close> tries it at one position, where
  \<open>prev\<close> is the character before the position and \<open>s\<close> the text from it on.
\<close>

fun searchFrom :: "(char option \<Rightarrow> string \<Rightarrow> 'a option) \<Rightarrow> char option \<Rightarrow> string \<Rightarrow> 'a option" where
  "searchFrom f prev [] = f prev []"
| "searchFrom f prev (c # cs) =
     (case f prev (c # cs) of Some r \<Rightarrow> Some r | None \<Rightarrow> searchFrom f (Some c) cs)"

text \<open>
  The character before the position that follows the text \<open>pre\<close>, when \<open>prev\<close> is the
  character before \<open>pre\<close>.
\<close>

definition charBefore :: "char option \<Rightarrow> string \<Rightarrow> char option" where
  "charBefore prev pre = (if pre = [] then prev else Some (last pre))"

text \<open>
  An alternation of literals \<^verbatim>\<open>(w1|w2|...)\<close>: the first alternative that matches at the front
  of \<open>s\<close>, as the matched text and the rest. \<open>firstWord\<close> is the alternation followed by
  \<^verbatim>\<open>\b\<close>: an alternative after which the assertion fails is given up for the next one.
\<close>

fun firstLit :: "bool \<Rightarrow> string list \<Rightarrow> string \<Rightarrow> (string \<times> string) option" where
  "firstLit ci [] s = None"
| "firstLit ci (w # ws) s =
     (case matchLit ci w s of
        Some rest \<Rightarrow> Some (take (length w) s, rest)
      | None \<Rightarrow> firstLit ci ws s)"

fun firstWord :: "bool \<Rightarrow> string list \<Rightarrow> string \<Rightarrow> (string \<times> string) option" where
  "firstWord ci [] s = None"
| "firstWord ci (w # ws) s =
     (case matchLit ci w s of
        Some rest \<Rightarrow>
          (if w \<noteq> [] \<and> boundary (Some (last (take (length w) s))) rest
           then Some (take (length w) s, rest)
           else firstWord ci ws s)
      | None \<Rightarrow> firstWord ci ws s)"

text \<open>\<^verbatim>\<open>parseInt\<close> of a string of decimal digits.\<close>

definition digitValue :: "char \<Rightarrow> nat" where
  "digitValue c = (case map_of (zip digits [0 ..< 10]) c of None \<Rightarrow> 0 | Some d \<Rightarrow> d)"

definition parseInt :: "string \<Rightarrow> nat" where
  "parseInt ds = foldl (\<lambda>n c. 10 * n + digitValue c) 0 ds"

subsection \<open>\<^verbatim>\<open>parseRelativeTime\<close>\<close>

text \<open>
  A moment is a local wall-clock instant: the number of its day (day 0 is Thursday,
  1 January 1970) and the milliseconds since that day's local midnight. The library sets
  the fields of the local date and keeps the time of day; the runtime's timezone then
  decides which wall-clock time that is. A timezone is given by this decision: \<open>zone m\<close>
  is the wall-clock time that the request for \<open>m\<close> gives, which is \<open>m\<close> itself unless a
  change of the clocks skips it. The timezone of the runtime is a parameter of the
  function. The instant that the addition of calendar months gives is not computed here:
  the result \<open>MonthsAfter n m\<close> stands for it.
\<close>

record moment =
  dayNumber :: int
  msOfDay :: int

type_synonym zone = "moment \<Rightarrow> moment"

datatype resolved = Instant moment | MonthsAfter nat moment

text \<open>A timezone at a fixed offset from universal time, such as UTC: no time is skipped.\<close>

definition fixedOffset :: zone where
  "fixedOffset m = m"

text \<open>A timezone whose clocks go from 02:00 to 03:00 on the day \<open>d\<close>.\<close>

definition springForward :: "int \<Rightarrow> zone" where
  "springForward d m =
     (if dayNumber m = d \<and> 7200000 \<le> msOfDay m \<and> msOfDay m < 10800000
      then m\<lparr>msOfDay := msOfDay m + 3600000\<rparr> else m)"

text \<open>The library's day of the week, \<^verbatim>\<open>.day()\<close>: 0 is Sunday, 6 is Saturday.\<close>

definition weekday :: "int \<Rightarrow> int" where
  "weekday d = (d + 4) mod 7"

text \<open>
  \<^verbatim>\<open>.add(n, 'day')\<close>, and \<^verbatim>\<open>.add(k, 'week')\<close> as 7 times \<open>k\<close> days: the same time of day
  \<open>n\<close> days on, as the timezone has it; nothing is set when \<open>n\<close> is 0.
\<close>

definition addDays :: "zone \<Rightarrow> int \<Rightarrow> moment \<Rightarrow> moment" where
  "addDays zone n m = (if n = 0 then m else zone (m\<lparr>dayNumber := dayNumber m + n\<rparr>))"

text \<open>\<^verbatim>\<open>.startOf('week')\<close> in the default locale: midnight of the week's Sunday.\<close>

definition startOfWeek :: "zone \<Rightarrow> moment \<Rightarrow> moment" where
  "startOfWeek zone m =
     zone \<lparr>dayNumber = dayNumber m - weekday (dayNumber m), msOfDay = 0\<rparr>"

text \<open>
  \<^verbatim>\<open>.day(n)\<close>: the day numbered \<open>n\<close> of the moment's Sunday-to-Saturday week, which the
  library reaches by adding the difference to the moment's day of the week in days.
\<close>

definition setDay :: "zone \<Rightarrow> int \<Rightarrow> moment \<Rightarrow> moment" where
  "setDay zone n m = addDays zone (n - weekday (dayNumber m)) m"

text \<open>\<^verbatim>\<open>a.isBefore(b, 'day')\<close>: the local day of \<open>a\<close> ends before \<open>b\<close>.\<close>

definition isBeforeDay :: "moment \<Rightarrow> moment \<Rightarrow> bool" where
  "isBeforeDay a b = (dayNumber a < dayNumber b)"

definition daysOfWeek :: "string list" where
  "daysOfWeek =
     [''monday'', ''tuesday'', ''wednesday'', ''thursday'', ''friday'', ''saturday'', ''sunday'']"

text \<open>\<^verbatim>\<open>Array.prototype.indexOf\<close>: the first index of the element, or \<open>-1\<close>.\<close>

fun indexOf :: "'a list \<Rightarrow> 'a \<Rightarrow> int" where
  "indexOf [] x = -1"
| "indexOf (y # ys) x =
     (if y = x then 0 else (let i = indexOf ys x in if i < 0 then -1 else i + 1))"

text \<open>
  \<^verbatim>\<open>/\b(next|this)\s+(monday|...|sunday)\b/i\<close> at one position: the two groups. The white
  space is taken as far as it goes, since a day name cannot start with white space.
\<close>

definition dayHere :: "char option \<Rightarrow> string \<Rightarrow> (string \<times> string) option" where
  "dayHere prev s =
     (if boundary prev s then
        (case firstLit True [''next'', ''this''] s of
           None \<Rightarrow> None
         | Some (modifier, rest) \<Rightarrow>
             (if rest \<noteq> [] \<and> isSpace (hd rest) then
                (case firstWord True daysOfWeek (dropWhile isSpace rest) of
                   None \<Rightarrow> None
                 | Some (dayName, after) \<Rightarrow> Some (modifier, dayName))
              else None))
      else None)"

text \<open>
  \<^verbatim>\<open>/\bin\s+(\d+)\s+(day|days|week|weeks|month|months)\b/i\<close> at one position: the two
  groups. The digits and the white space are taken as far as they go: what follows the
  digits must be white space, and what follows the white space a letter.
\<close>

definition inHere :: "char option \<Rightarrow> string \<Rightarrow> (string \<times> string) option" where
  "inHere prev s =
     (if boundary prev s then
        (case matchLit True ''in'' s of
           None \<Rightarrow> None
         | Some r1 \<Rightarrow>
             (if r1 \<noteq> [] \<and> isSpace (hd r1) then
                (let r2 = dropWhile isSpace r1;
                     ds = takeWhile isDigit r2;
                     r3 = dropWhile isDigit r2
                 in if ds \<noteq> [] \<and> r3 \<noteq> [] \<and> isSpace (hd r3) then
                      (case firstWord True
                              [''day'', ''days'', ''week'', ''weeks'', ''month'', ''months'']
                              (dropWhile isSpace r3) of
                         None \<Rightarrow> None
                       | Some (unit, after) \<Rightarrow> Some (ds, unit))
                    else None)
              else None))
      else None)"

text \<open>\<^verbatim>\<open>unit.replace(/s$/, '')\<close>\<close>

definition dropPluralS :: "string \<Rightarrow> string" where
  "dropPluralS u = (if u \<noteq> [] \<and> last u = CHR ''s'' then butlast u else u)"

text \<open>\<^verbatim>\<open>now.add(amount, unit)\<close> for the three units that the pattern admits.\<close>

definition addUnit :: "zone \<Rightarrow> nat \<Rightarrow> string \<Rightarrow> moment \<Rightarrow> resolved" where
  "addUnit zone amount unit m =
     (if unit = ''day'' then Instant (addDays zone (int amount) m)
      else if unit = ''week'' then Instant (addDays zone (7 * int amount) m)
      else MonthsAfter amount m)"

text \<open>The result \<open>None\<close> is \<^verbatim>\<open>null\<close>.\<close>

definition parseRelativeTime :: "zone \<Rightarrow> string \<Rightarrow> moment \<Rightarrow> resolved option" where
  "parseRelativeTime zone text referenceDate =
     (let lowerText = toLowerCase text;
          now = referenceDate
      in if test False (words [''today'']) lowerText then Some (Instant now)
         else if test False (words [''tomorrow'']) lowerText
           then Some (Instant (addDays zone 1 now))
         else if test False (words [''yesterday'']) lowerText
           then Some (Instant (addDays zone (- 1) now))
         else if test False (words [''next week'']) lowerText
           then Some (Instant (startOfWeek zone (addDays zone 7 now)))
         else if test False (words [''this week'']) lowerText
           then Some (Instant (startOfWeek zone now))
         else
           (case searchFrom dayHere None lowerText of
              Some (modifier, dayName) \<Rightarrow>
                (let targetDay = indexOf daysOfWeek (toLowerCase dayName);
                     targetDate = setDay zone targetDay now
                 in Some (Instant (if toLowerCase modifier = ''next'' \<or> isBeforeDay targetDate now
                                   then addDays zone 7 targetDate else targetDate)))
            | None \<Rightarrow>
                (case searchFrom inHere None lowerText of
                   Some (ds, unit) \<Rightarrow>
                     Some (addUnit zone (parseInt ds) (dropPluralS unit) now)
                 | None \<Rightarrow> None)))"

subsection \<open>\<^verbatim>\<open>suggestMeetingTimes\<close> and \<^verbatim>\<open>calculateTimeScore\<close>\<close>

definition calculateTimeScore :: "int \<Rightarrow> int \<Rightarrow> rat" where
  "calculateTimeScore hour1 hour2 =
     (let idealStart = 10;
          idealEnd = 16;
          score1 = (if hour1 \<ge> idealStart \<and> hour1 \<le> idealEnd then 1 else 1 / 2);
          score2 = (if hour2 \<ge> idealStart \<and> hour2 \<le> idealEnd then 1 else 1 / 2);
          earlyPenalty1 = (if hour1 < 9 then - (1 / 2) else 0);
          earlyPenalty2 = (if hour2 < 9 then - (1 / 2) else 0);
          latePenalty1 = (if hour1 > 17 then - (1 / 2) else 0);
          latePenalty2 = (if hour2 > 17 then - (1 / 2) else 0)
      in score1 + score2 + earlyPenalty1 + earlyPenalty2 + latePenalty1 + latePenalty2)"

text \<open>
  A suggestion keeps the two hours instead of the source's formatted times. The hour in
  the second timezone that the timezone library gives for an hour of the first one is the
  parameter \<open>hourIn2\<close>.
\<close>

record suggestion =
  hour1 :: int
  hour2 :: int
  score :: rat

text \<open>The body of the \<^verbatim>\<open>for\<close> loop for one hour: the suggestions it pushes.\<close>

definition suggestAt :: "(int \<Rightarrow> int) \<Rightarrow> int \<Rightarrow> int \<Rightarrow> int \<Rightarrow> suggestion list" where
  "suggestAt hourIn2 businessHoursStart businessHoursEnd hour =
     (let h2 = hourIn2 hour
      in if h2 \<ge> businessHoursStart \<and> h2 < businessHoursEnd
         then [\<lparr>hour1 = hour, hour2 = h2, score = calculateTimeScore hour h2\<rparr>]
         else [])"

text \<open>
  \<^verbatim>\<open>suggestions.sort((a, b) => b.score - a.score)\<close> is a stable sort by descending
  score; \<open>sort_key\<close> is the stable insertion sort.
\<close>

definition suggestMeetingTimes :: "(int \<Rightarrow> int) \<Rightarrow> int \<Rightarrow> int \<Rightarrow> suggestion list" where
  "suggestMeetingTimes hourIn2 businessHoursStart businessHoursEnd =
     (let suggestions =
            concat (map (suggestAt hourIn2 businessHoursStart businessHoursEnd)
                        [businessHoursStart .. businessHoursEnd - 1])
      in take 5 (sort_key (\<lambda>s. - score s) suggestions))"

section \<open>JavaScript values\<close>

text \<open>
  The values that travel between the parser, the refiner and the validator are JSON
  values. \<open>None\<close> of type \<open>jsval\<close> is \<^verbatim>\<open>undefined\<close>. An object that the functions build or
  return is the map of its properties; a property that holds \<^verbatim>\<open>undefined\<close> is not told
  apart from a missing one.
\<close>

datatype json =
    JNull
  | JBool bool
  | JNum rat
  | JStr string
  | JArr "json list"
  | JObj "(string \<times> json) list"

type_synonym jsval = "json option"

type_synonym obj = "string \<rightharpoonup> json"

fun truthyJson :: "json \<Rightarrow> bool" where
  "truthyJson JNull = False"
| "truthyJson (JBool b) = b"
| "truthyJson (JNum n) = (n \<noteq> 0)"
| "truthyJson (JStr s) = (s \<noteq> [])"
| "truthyJson (JArr xs) = True"
| "truthyJson (JObj kvs) = True"

definition truthy :: "jsval \<Rightarrow> bool" where
  "truthy v = (case v of None \<Rightarrow> False | Some x \<Rightarrow> truthyJson x)"

text \<open>\<^verbatim>\<open>a || b\<close>\<close>

definition orElse :: "jsval \<Rightarrow> jsval \<Rightarrow> jsval" where
  "orElse a b = (if truthy a then a else b)"

text \<open>The decimal numeral of a number: the name of an array index.\<close>

fun showNat :: "nat \<Rightarrow> string" where
  "showNat n = (if n < 10 then [digits ! n] else showNat (n div 10) @ [digits ! (n mod 10)])"

definition indexed :: "json list \<Rightarrow> (string \<times> json) list" where
  "indexed xs = zip (map showNat [0 ..< length xs]) xs"

text \<open>
  The own enumerable properties of a value, which are what the spread \<^verbatim>\<open>{...x}\<close> copies.
  Of two entries of an object with the same key the later one counts.
\<close>

fun ownProps :: "json \<Rightarrow> obj" where
  "ownProps (JObj kvs) = map_of (rev kvs)"
| "ownProps (JArr xs) = map_of (indexed xs)"
| "ownProps (JStr s) = map_of (indexed (map (\<lambda>c. JStr [c]) s))"
| "ownProps x = Map.empty"

text \<open>
  \<^verbatim>\<open>x.k\<close> for a value \<open>x\<close> other than \<^verbatim>\<open>null\<close>, for the property names that the sources
  read (none of them names a method of a prototype).
\<close>

fun getProp :: "json \<Rightarrow> string \<Rightarrow> jsval" where
  "getProp (JArr xs) k =
     (if k = ''length'' then Some (JNum (of_nat (length xs))) else ownProps (JArr xs) k)"
| "getProp (JStr s) k =
     (if k = ''length'' then Some (JNum (of_nat (length s))) else ownProps (JStr s) k)"
| "getProp x k = ownProps x k"

text \<open>An evaluation either throws or returns a value.\<close>

datatype 'a outcome = Throws | Returns 'a

definition andThen :: "'a outcome \<Rightarrow> ('a \<Rightarrow> 'b outcome) \<Rightarrow> 'b outcome" where
  "andThen r f = (case r of Throws \<Rightarrow> Throws | Returns x \<Rightarrow> f x)"

text \<open>\<^verbatim>\<open>v.k\<close> throws a TypeError on \<^verbatim>\<open>undefined\<close> and \<^verbatim>\<open>null\<close>; \<^verbatim>\<open>v?.k\<close> is \<^verbatim>\<open>undefined\<close> there.\<close>

definition read :: "jsval \<Rightarrow> string \<Rightarrow> jsval outcome" where
  "read v k =
     (case v of None \<Rightarrow> Throws | Some JNull \<Rightarrow> Throws | Some x \<Rightarrow> Returns (getProp x k))"

definition optRead :: "jsval \<Rightarrow> string \<Rightarrow> jsval" where
  "optRead v k = (case v of None \<Rightarrow> None | Some JNull \<Rightarrow> None | Some x \<Rightarrow> getProp x k)"

section \<open>The AI processor\<close>

subsection \<open>Duration extraction of \<^verbatim>\<open>localParse\<close>\<close>

text \<open>
  The three duration patterns are \<^verbatim>\<open>/(\d+)\s*(?:minute|min|minutes)/i\<close>,
  \<^verbatim>\<open>/(\d+)\s*(?:hour|hr|hours)/i\<close> and \<^verbatim>\<open>/(\d+\.5)\s*(?:hour|hr|hours)/i\<close>: a pattern is its
  list of units and whether its group ends in \<^verbatim>\<open>\.5\<close>.
\<close>

record durationPattern =
  fractional :: bool
  units :: "string list"

definition durationPatterns :: "durationPattern list" where
  "durationPatterns =
     [\<lparr>fractional = False, units = [''minute'', ''min'', ''minutes'']\<rparr>,
      \<lparr>fractional = False, units = [''hour'', ''hr'', ''hours'']\<rparr>,
      \<lparr>fractional = True, units = [''hour'', ''hr'', ''hours'']\<rparr>]"

text \<open>
  One pattern at one position: the text of the group. The digits and the white space are
  taken as far as they go, since what follows the digits is no digit and what follows the
  white space is a letter.
\<close>

definition unitAfter :: "string list \<Rightarrow> string \<Rightarrow> string \<Rightarrow> string option" where
  "unitAfter us number s =
     (case firstLit True us (dropWhile isSpace s) of None \<Rightarrow> None | Some m \<Rightarrow> Some number)"

definition durationHere :: "durationPattern \<Rightarrow> char option \<Rightarrow> string \<Rightarrow> string option" where
  "durationHere p prev s =
     (let ds = takeWhile isDigit s;
          rest = dropWhile isDigit s
      in if ds = [] then None
         else if fractional p then
           (case matchLit False ''.5'' rest of
              None \<Rightarrow> None
            | Some rest' \<Rightarrow> unitAfter (units p) (ds @ ''.5'') rest')
         else unitAfter (units p) ds rest)"

text \<open>\<^verbatim>\<open>parseFloat\<close> of digits with an optional fraction.\<close>

definition parseFloat :: "string \<Rightarrow> rat" where
  "parseFloat s =
     (let ds = takeWhile isDigit s;
          rest = dropWhile isDigit s;
          fs = (case rest of [] \<Rightarrow> [] | c # cs \<Rightarrow> if c = CHR ''.'' then takeWhile isDigit cs else [])
      in of_nat (parseInt ds) + of_nat (parseInt fs) / 10 ^ length fs)"

text \<open>
  The loop over the patterns, with its \<^verbatim>\<open>break\<close> at the first one that matches. The text
  of a pattern includes \<^verbatim>\<open>hour\<close> when \<^verbatim>\<open>hour\<close> is one of its units.
\<close>

fun durationLoop :: "durationPattern list \<Rightarrow> string \<Rightarrow> rat option" where
  "durationLoop [] command = None"
| "durationLoop (pattern # rest) command =
     (case searchFrom (durationHere pattern) None command of
        Some m \<Rightarrow>
          (let duration = parseFloat m
           in Some (if ''hour'' \<in> set (units pattern) then duration * 60 else duration))
      | None \<Rightarrow> durationLoop rest command)"

definition parseDuration :: "string \<Rightarrow> rat option" where
  "parseDuration command = durationLoop durationPatterns command"

subsection \<open>Platform and timezone extraction of \<^verbatim>\<open>localParse\<close>\<close>

definition platformKeywords :: "(string \<times> string list) list" where
  "platformKeywords =
     [(''google-meet'', [''google meet'', ''gmeet'', ''meet'']),
      (''zoom'', [''zoom'']),
      (''teams'', [''teams'', ''microsoft teams'', ''ms teams''])]"

text \<open>\<^verbatim>\<open>s.includes(keyword)\<close>\<close>

definition includesText :: "string \<Rightarrow> string \<Rightarrow> bool" where
  "includesText s keyword = test False [Alt False keyword False] s"

fun platformLoop :: "(string \<times> string list) list \<Rightarrow> string \<Rightarrow> string option" where
  "platformLoop [] lowerCommand = None"
| "platformLoop ((platform, keywords) # rest) lowerCommand =
     (if list_ex (\<lambda>keyword. includesText lowerCommand keyword) keywords then Some platform
      else platformLoop rest lowerCommand)"

text \<open>
  \<^verbatim>\<open>/\b([A-Z]{3,4})\b/\<close> at one position: four capital letters are tried before three.
\<close>

definition upperRun :: "nat \<Rightarrow> string \<Rightarrow> string option" where
  "upperRun n s =
     (if n \<le> length s \<and> list_all isUpper (take n s) \<and> boundary (Some (last (take n s))) (drop n s)
      then Some (take n s) else None)"

definition tokenHere :: "char option \<Rightarrow> string \<Rightarrow> string option" where
  "tokenHere prev s =
     (if boundary prev s then
        (case upperRun 4 s of Some tok \<Rightarrow> Some tok | None \<Rightarrow> upperRun 3 s)
      else None)"

definition timezoneMap :: "(string \<times> string) list" where
  "timezoneMap =
     [(''EST'', ''America/New_York''),
      (''EDT'', ''America/New_York''),
      (''CST'', ''America/Chicago''),
      (''CDT'', ''America/Chicago''),
      (''MST'', ''America/Denver''),
      (''MDT'', ''America/Denver''),
      (''PST'', ''America/Los_Angeles''),
      (''PDT'', ''America/Los_Angeles''),
      (''GMT'', ''Europe/London''),
      (''BST'', ''Europe/London''),
      (''CET'', ''Europe/Paris''),
      (''CEST'', ''Europe/Paris''),
      (''IST'', ''Asia/Kolkata''),
      (''JST'', ''Asia/Tokyo''),
      (''AEST'', ''Australia/Sydney''),
      (''AEDT'', ''Australia/Sydney'')]"

text \<open>
  The timezone of the runtime, \<^verbatim>\<open>Intl.DateTimeFormat().resolvedOptions().timeZone\<close>, is the
  parameter \<open>systemTimeZone\<close>.
\<close>

definition convertTimezoneAbbreviation :: "string \<Rightarrow> string \<Rightarrow> string" where
  "convertTimezoneAbbreviation systemTimeZone abbr =
     (case map_of timezoneMap abbr of Some tz \<Rightarrow> tz | None \<Rightarrow> systemTimeZone)"

subsection \<open>\<^verbatim>\<open>localParse\<close>\<close>

text \<open>
  The date library's results for the command, \<^verbatim>\<open>chrono.parse(command)\<close>, are a parameter:
  of each result the function reads the start's date in ISO form, whether its hour is
  certain, and its local hours and minutes.
\<close>

record chronoResult =
  isoDate :: string
  hourCertain :: bool
  hours :: nat
  minutes :: nat

text \<open>\<^verbatim>\<open>String(n).padStart(2, '0')\<close>\<close>

definition pad2 :: "nat \<Rightarrow> string" where
  "pad2 n = (if n < 10 then CHR ''0'' # showNat n else showNat n)"

definition emptyParsed :: obj where
  "emptyParsed =
     [''participantName'' \<mapsto> JNull, ''email'' \<mapsto> JNull, ''date'' \<mapsto> JNull, ''time'' \<mapsto> JNull,
      ''timezone'' \<mapsto> JNull, ''duration'' \<mapsto> JNull, ''platform'' \<mapsto> JNull]"

text \<open>The steps of the function, each from the object \<open>parsed\<close> so far to the next one.\<close>

definition setParticipant :: "jsval \<Rightarrow> obj \<Rightarrow> obj" where
  "setParticipant context parsed =
     (let name = optRead (optRead context ''participantInfo'') ''name'';
          parsed = (if truthy name then parsed(''participantName'' := name) else parsed);
          email = optRead (optRead context ''participantInfo'') ''email''
      in if truthy email then parsed(''email'' := email) else parsed)"

definition setDateTime :: "chronoResult list \<Rightarrow> obj \<Rightarrow> obj" where
  "setDateTime chronoParsed parsed =
     (case chronoParsed of
        [] \<Rightarrow> parsed
      | firstDate # others \<Rightarrow>
          (let parsed = parsed(''date'' \<mapsto> JStr (isoDate firstDate))
           in if hourCertain firstDate
              then parsed(''time'' \<mapsto>
                     JStr (pad2 (hours firstDate) @ '':'' @ pad2 (minutes firstDate)))
              else parsed))"

definition setDuration :: "string \<Rightarrow> obj \<Rightarrow> obj" where
  "setDuration command parsed =
     (case parseDuration command of
        Some duration \<Rightarrow> parsed(''duration'' \<mapsto> JNum duration)
      | None \<Rightarrow> parsed)"

definition setPlatform :: "string \<Rightarrow> obj \<Rightarrow> obj" where
  "setPlatform command parsed =
     (let lowerCommand = toLowerCase command
      in case platformLoop platformKeywords lowerCommand of
           Some platform \<Rightarrow> parsed(''platform'' \<mapsto> JStr platform)
         | None \<Rightarrow> parsed)"

definition setTimezone :: "string \<Rightarrow> string \<Rightarrow> obj \<Rightarrow> obj" where
  "setTimezone systemTimeZone command parsed =
     (let timezoneMatch = searchFrom tokenHere None command
      in case timezoneMatch of
           Some tok \<Rightarrow>
             parsed(''timezone'' \<mapsto> JStr (convertTimezoneAbbreviation systemTimeZone tok))
         | None \<Rightarrow> parsed)"

definition localParse :: "chronoResult list \<Rightarrow> string \<Rightarrow> string \<Rightarrow> jsval \<Rightarrow> obj" where
  "localParse chronoParsed systemTimeZone command context =
     (let parsed = emptyParsed;
          parsed = setParticipant context parsed;
          parsed = setDateTime chronoParsed parsed;
          parsed = setDuration command parsed;
          parsed = setPlatform command parsed
      in setTimezone systemTimeZone command parsed)"

subsection \<open>\<^verbatim>\<open>aiEnhancedParse\<close>\<close>

text \<open>
  What the request to the language model comes back with is an input of the model:
  \<open>Throws\<close> when building the prompt or \<^verbatim>\<open>fetch\<close> itself throws (a network error, a
  timeout), otherwise a response with its status and with what \<^verbatim>\<open>response.json()\<close> gives.
  \<^verbatim>\<open>JSON.parse\<close> is the parameter \<open>JSON_parse\<close>, from the value it is applied to. The argument
  \<^verbatim>\<open>localParse\<close> is \<open>local\<close> here.
\<close>

record response =
  status :: nat
  body :: "json outcome"

text \<open>\<^verbatim>\<open>response.ok\<close>: the status is in the range 200 to 299.\<close>

definition ok :: "response \<Rightarrow> bool" where
  "ok r = (200 \<le> status r \<and> status r \<le> 299)"

text \<open>\<^verbatim>\<open>data.choices[0].message.content\<close>\<close>

definition contentOf :: "json \<Rightarrow> jsval outcome" where
  "contentOf data =
     andThen (read (Some data) ''choices'') (\<lambda>choices.
     andThen (read choices ''0'') (\<lambda>choice.
     andThen (read choice ''message'') (\<lambda>message.
     read message ''content'')))"

text \<open>
  The object literal of the \<^verbatim>\<open>return\<close>: the two spreads, then the two properties that fall
  back to the local parse. Reading a property of \<open>aiParsed\<close> throws when it is \<^verbatim>\<open>null\<close>.
\<close>

definition mergeParsed :: "obj \<Rightarrow> json \<Rightarrow> obj outcome" where
  "mergeParsed local aiParsed =
     (let spread = local ++ ownProps aiParsed
      in andThen (read (Some aiParsed) ''participantName'') (\<lambda>aiName.
         andThen (read (Some aiParsed) ''email'') (\<lambda>aiEmail.
         Returns (spread(''participantName'' := orElse aiName (local ''participantName''),
                         ''email'' := orElse aiEmail (local ''email''))))))"

text \<open>The \<^verbatim>\<open>try\<close> block.\<close>

definition tryParse :: "(jsval \<Rightarrow> json outcome) \<Rightarrow> response outcome \<Rightarrow> obj \<Rightarrow> obj outcome" where
  "tryParse JSON_parse fetched local =
     andThen fetched (\<lambda>response.
       if \<not> ok response then Returns local
       else
         andThen (body response) (\<lambda>data.
         andThen (contentOf data) (\<lambda>content.
         andThen (JSON_parse content) (\<lambda>aiParsed.
         mergeParsed local aiParsed))))"

text \<open>The \<^verbatim>\<open>catch\<close> block returns the local parse.\<close>

definition aiEnhancedParse :: "(jsval \<Rightarrow> json outcome) \<Rightarrow> response outcome \<Rightarrow> obj \<Rightarrow> obj" where
  "aiEnhancedParse JSON_parse fetched local =
     (case tryParse JSON_parse fetched local of
        Throws \<Rightarrow> local
      | Returns merged \<Rightarrow> merged)"

section \<open>The background service: \<^verbatim>\<open>validateMeetingData\<close>\<close>

record validation =
  isValid :: bool
  missing :: "string list"

definition validateMeetingData :: "obj \<Rightarrow> jsval \<Rightarrow> validation" where
  "validateMeetingData parsedData context =
     (let missing = [];
          missing =
            (if \<not> truthy (parsedData ''email'') \<and>
                \<not> truthy (optRead (optRead context ''participantInfo'') ''email'')
             then missing @ [''email''] else missing);
          missing = (if \<not> truthy (parsedData ''date'') then missing @ [''date''] else missing);
          missing = (if \<not> truthy (parsedData ''time'') then missing @ [''time''] else missing)
      in \<lparr>isValid = (length missing = 0), missing = missing\<rparr>)"

section \<open>The calendar service: \<^verbatim>\<open>findAvailableSlots\<close>\<close>

text \<open>
  A date is its time value in milliseconds, counted from a local midnight; local time is
  at a fixed offset from universal time (no daylight-saving change in the window). A
  busy interval is the pair of its start and its end, and so is a slot. The duration is a
  number of minutes.
\<close>

type_synonym date = int

definition msPerMinute :: int where
  "msPerMinute = 60000"

definition msPerHour :: int where
  "msPerHour = 3600000"

definition msPerDay :: int where
  "msPerDay = 86400000"

definition getHours :: "date \<Rightarrow> int" where
  "getHours t = (t mod msPerDay) div msPerHour"

text \<open>\<^verbatim>\<open>t.setHours(h, 0, 0, 0)\<close>\<close>

definition setHours :: "int \<Rightarrow> date \<Rightarrow> date" where
  "setHours h t = (t div msPerDay) * msPerDay + h * msPerHour"

text \<open>\<^verbatim>\<open>t.setDate(t.getDate() + 1)\<close>\<close>

definition nextDate :: "date \<Rightarrow> date" where
  "nextDate t = t + msPerDay"

definition businessHoursStart :: int where
  "businessHoursStart = 9"

definition businessHoursEnd :: int where
  "businessHoursEnd = 17"

text \<open>The function given to \<^verbatim>\<open>busySlots.some\<close>.\<close>

definition conflicts :: "date \<Rightarrow> date \<Rightarrow> date \<times> date \<Rightarrow> bool" where
  "conflicts currentTime slotEnd busy =
     (let busyStart = fst busy;
          busyEnd = snd busy
      in (currentTime \<ge> busyStart \<and> currentTime < busyEnd) \<or>
         (slotEnd > busyStart \<and> slotEnd \<le> busyEnd))"

text \<open>The \<^verbatim>\<open>while\<close> loop, from the current time and the slots pushed so far.\<close>

function slotLoop ::
  "date \<Rightarrow> (date \<times> date) list \<Rightarrow> int \<Rightarrow> date \<Rightarrow> (date \<times> date) list \<Rightarrow> (date \<times> date) list" where
  "slotLoop endDate busySlots duration currentTime slots =
     (if currentTime < endDate then
        (let slotEnd = currentTime + duration * msPerMinute
         in if getHours slotEnd > businessHoursEnd
            then slotLoop endDate busySlots duration
                   (setHours businessHoursStart (nextDate currentTime)) slots
            else
              (let isAvailable = \<not> list_ex (conflicts currentTime slotEnd) busySlots;
                   slots = (if isAvailable then slots @ [(currentTime, slotEnd)] else slots)
               in slotLoop endDate busySlots duration (currentTime + 30 * msPerMinute) slots))
      else slots)"
  by pat_completeness auto
termination
proof (relation "measure (\<lambda>(endDate, busySlots, duration, currentTime, slots).
                            nat (endDate - currentTime))")
  show "wf (measure (\<lambda>(endDate, busySlots, duration, currentTime, slots).
                            nat (endDate - currentTime)))"
    by simp
next
  fix endDate :: date and busySlots :: "(date \<times> date) list" and duration currentTime :: int
    and slots :: "(date \<times> date) list" and x :: int
  assume "currentTime < endDate"
  moreover have "currentTime < setHours businessHoursStart (nextDate currentTime)"
  proof -
    have "currentTime mod msPerDay < msPerDay"
      by (simp add: msPerDay_def)
    moreover have "currentTime = (currentTime div msPerDay) * msPerDay + currentTime mod msPerDay"
      by simp
    moreover have "(currentTime + msPerDay) div msPerDay = currentTime div msPerDay + 1"
      by (simp add: msPerDay_def)
    ultimately show ?thesis
      by (simp add: setHours_def nextDate_def businessHoursStart_def msPerHour_def
            algebra_simps msPerDay_def)
  qed
  ultimately show "((endDate, busySlots, duration,
            setHours businessHoursStart (nextDate currentTime), slots),
           (endDate, busySlots, duration, currentTime, slots))
          \<in> measure (\<lambda>(endDate, busySlots, duration, currentTime, slots).
                            nat (endDate - currentTime))"
    by simp
next
  fix endDate :: date and busySlots :: "(date \<times> date) list" and duration currentTime :: int
    and slots :: "(date \<times> date) list" and x :: int and xa :: bool
    and xb :: "(date \<times> date) list"
  assume "currentTime < endDate"
  then show "((endDate, busySlots, duration, currentTime + 30 * msPerMinute, xb),
           (endDate, busySlots, duration, currentTime, slots))
          \<in> measure (\<lambda>(endDate, busySlots, duration, currentTime, slots).
                            nat (endDate - currentTime))"
    by (simp add: msPerMinute_def)
qed

text \<open>The equation of the loop is unfolded by hand, one iteration at a time.\<close>

declare slotLoop.simps [simp del]

definition findAvailableSlots ::
  "date \<Rightarrow> date \<Rightarrow> (date \<times> date) list \<Rightarrow> int \<Rightarrow> (date \<times> date) list" where
  "findAvailableSlots startDate endDate busySlots duration =
     (let slots = [];
          currentTime = setHours businessHoursStart startDate
      in slotLoop endDate busySlots duration currentTime slots)"

section \<open>Notions of the specification\<close>

text \<open>
  The specification's score of one side of a suggestion: 1 when the hour lies in the ideal
  window from 10 to 16, otherwise a half; less a half when the hour is before 9 or after 17.
\<close>

definition sideScore :: "int \<Rightarrow> rat" where
  "sideScore h =
     (if 10 \<le> h \<and> h \<le> 16 then 1 else 1 / 2) - (if h < 9 \<or> 17 < h then 1 / 2 else 0)"

text \<open>An hour lies in the business-hours window.\<close>

definition inWindow :: "int \<Rightarrow> int \<Rightarrow> int \<Rightarrow> bool" where
  "inWindow start end h = (start \<le> h \<and> h < end)"

text \<open>
  The order of the ranking: a higher score first, and of two suggestions with the same
  score the one with the earlier hour in the first timezone.
\<close>

definition ranksBefore :: "suggestion \<Rightarrow> suggestion \<Rightarrow> bool" where
  "ranksBefore a b = (score b < score a \<or> (score a = score b \<and> hour1 a < hour1 b))"

text \<open>
  The remote call fails: the request throws, the response's status is not a success, its
  body is not JSON, the body has no \<^verbatim>\<open>choices[0].message.content\<close>, or the content is not
  JSON or is the JSON value \<^verbatim>\<open>null\<close>.
\<close>

definition remoteFails :: "(jsval \<Rightarrow> json outcome) \<Rightarrow> response outcome \<Rightarrow> bool" where
  "remoteFails JSON_parse fetched =
     (case fetched of
        Throws \<Rightarrow> True
      | Returns r \<Rightarrow>
          \<not> ok r \<or>
          (case body r of
             Throws \<Rightarrow> True
           | Returns data \<Rightarrow>
               (case contentOf data of
                  Throws \<Rightarrow> True
                | Returns content \<Rightarrow>
                    (case JSON_parse content of
                       Throws \<Rightarrow> True
                     | Returns aiParsed \<Rightarrow> aiParsed = JNull))))"

text \<open>
  A reply of the language model with the given content: a response with status 200 whose
  body holds the content as \<^verbatim>\<open>choices[0].message.content\<close>.
\<close>

definition reply :: "string \<Rightarrow> response outcome" where
  "reply content =
     Returns \<lparr>status = 200,
              body = Returns (JObj [(''choices'',
                       JArr [JObj [(''message'', JObj [(''content'', JStr content)])]])])\<rparr>"

text \<open>
  A token of three or four capital letters in a command: the command is \<open>pre\<close>, then the
  token, then \<open>post\<close>, and no word character stands directly before or after the token.
\<close>

definition isToken :: "string \<Rightarrow> string \<Rightarrow> string \<Rightarrow> bool" where
  "isToken pre tok post =
     ((length tok = 3 \<or> length tok = 4) \<and> list_all isUpper tok \<and>
      (pre = [] \<or> \<not> isWordChar (last pre)) \<and> (post = [] \<or> \<not> isWordChar (hd post)))"

definition hasToken :: "string \<Rightarrow> bool" where
  "hasToken command = (\<exists>pre tok post. command = pre @ tok @ post \<and> isToken pre tok post)"

text \<open>
  The time \<open>h:m\<close> of the day that starts at time value 0, and the window of one day that
  \<^verbatim>\<open>checkAvailability\<close> passes to the slot finder: from midnight to 23:59:59.999.
\<close>

definition clock :: "int \<Rightarrow> int \<Rightarrow> date" where
  "clock h m = h * msPerHour + m * msPerMinute"

definition dayStart :: date where
  "dayStart = clock 0 0"

definition dayEnd :: date where
  "dayEnd = clock 24 0 - 1"

text \<open>A slot of that day lies within business hours: it starts at 09:00 or later and ends at
  17:00 or earlier.\<close>

definition withinBusinessHours :: "date \<times> date \<Rightarrow> bool" where
  "withinBusinessHours slot = (clock 9 0 \<le> fst slot \<and> snd slot \<le> clock 17 0)"

text \<open>The time spans of a slot and of a busy interval intersect.\<close>

definition intersects :: "date \<times> date \<Rightarrow> date \<times> date \<Rightarrow> bool" where
  "intersects slot busy = (fst slot < snd busy \<and> fst busy < snd slot)"

text \<open>
  The overlap of the specification: the start of the slot falls within the busy interval,
  or its end does. A slot that only abuts the interval does not overlap: its start may be
  the interval's end, and its end the interval's start.
\<close>

definition overlaps :: "date \<times> date \<Rightarrow> date \<times> date \<Rightarrow> bool" where
  "overlaps slot busy =
     ((fst busy \<le> fst slot \<and> fst slot < snd busy) \<or> (fst busy < snd slot \<and> snd slot \<le> snd busy))"

section \<open>Leftmost matches\<close>

lemma charBefore_Nil: "charBefore prev [] = prev"
  by (simp add: charBefore_def)

lemma charBefore_Cons: "charBefore prev (c # pre) = charBefore (Some c) pre"
  by (simp add: charBefore_def)

lemma searchFrom_sound:
  "searchFrom f prev s = Some r \<Longrightarrow>
   \<exists>pre rest. s = pre @ rest \<and> f (charBefore prev pre) rest = Some r"
proof (induction s arbitrary: prev)
  case Nil
  then have "[] = [] @ [] \<and> f (charBefore prev []) [] = Some r"
    by (simp add: charBefore_Nil)
  then show ?case by (rule_tac x = "[]" in exI, rule_tac x = "[]" in exI)
next
  case (Cons c cs)
  show ?case
  proof (cases "f prev (c # cs)")
    case (Some r')
    with Cons.prems have "c # cs = [] @ (c # cs) \<and> f (charBefore prev []) (c # cs) = Some r"
      by (simp add: charBefore_Nil)
    then show ?thesis by (rule_tac x = "[]" in exI, rule_tac x = "c # cs" in exI)
  next
    case None
    with Cons.prems have "searchFrom f (Some c) cs = Some r" by simp
    from Cons.IH [OF this] obtain pre rest where
      eq: "cs = pre @ rest" and f: "f (charBefore (Some c) pre) rest = Some r" by blast
    from eq f have "c # cs = (c # pre) @ rest \<and> f (charBefore prev (c # pre)) rest = Some r"
      by (simp add: charBefore_Cons)
    then show ?thesis by (rule_tac x = "c # pre" in exI, rule_tac x = rest in exI)
  qed
qed

lemma searchFrom_complete:
  "f (charBefore prev pre) rest \<noteq> None \<Longrightarrow> searchFrom f prev (pre @ rest) \<noteq> None"
proof (induction pre arbitrary: prev)
  case Nil
  then show ?case by (cases rest) (auto simp: charBefore_Nil split: option.splits)
next
  case (Cons p pre)
  from Cons.prems have "f (charBefore (Some p) pre) rest \<noteq> None"
    by (simp add: charBefore_Cons)
  from Cons.IH [OF this] show ?case by (auto split: option.splits)
qed

section \<open>Properties of the timezone resolver\<close>

lemma firstMatch_None:
  "firstMatch ps s = None \<longleftrightarrow> (\<forall>x \<in> set ps. \<not> test True (fst x) s)"
  by (induction ps s rule: firstMatch.induct) auto

lemma firstMatch_skip:
  "\<forall>x \<in> set before. \<not> test True (fst x) s \<Longrightarrow>
   firstMatch (before @ rest) s = firstMatch rest s"
  by (induction before) auto

lemma firstMatch_split:
  "firstMatch ps s = Some tz \<Longrightarrow>
   \<exists>before pat after. ps = before @ (pat, tz) # after \<and> test True pat s \<and>
      (\<forall>x \<in> set before. \<not> test True (fst x) s)"
proof (induction ps)
  case Nil
  then show ?case by simp
next
  case (Cons a ps)
  obtain p z where a: "a = (p, z)" by (cases a)
  show ?case
  proof (cases "test True p s")
    case True
    with Cons.prems a have "z = tz" by simp
    with a True have "a # ps = [] @ (p, tz) # ps \<and> test True p s \<and>
        (\<forall>x \<in> set []. \<not> test True (fst x) s)" by simp
    then show ?thesis by blast
  next
    case False
    with Cons.prems a have "firstMatch ps s = Some tz" by simp
    from Cons.IH [OF this] obtain before pat after where
      eq: "ps = before @ (pat, tz) # after" and t: "test True pat s"
      and no: "\<forall>x \<in> set before. \<not> test True (fst x) s" by blast
    from eq a have "a # ps = ((p, z) # before) @ (pat, tz) # after" by simp
    moreover from no False have "\<forall>x \<in> set ((p, z) # before). \<not> test True (fst x) s" by simp
    ultimately show ?thesis using t by blast
  qed
qed

lemma firstMatch_Some:
  "firstMatch ps s = Some tz \<longleftrightarrow>
     (\<exists>before pat after. ps = before @ (pat, tz) # after \<and> test True pat s \<and>
        (\<forall>x \<in> set before. \<not> test True (fst x) s))"
proof
  assume "firstMatch ps s = Some tz"
  then show "\<exists>before pat after. ps = before @ (pat, tz) # after \<and> test True pat s \<and>
        (\<forall>x \<in> set before. \<not> test True (fst x) s)" by (rule firstMatch_split)
next
  assume "\<exists>before pat after. ps = before @ (pat, tz) # after \<and> test True pat s \<and>
        (\<forall>x \<in> set before. \<not> test True (fst x) s)"
  then obtain before pat after where
      eq: "ps = before @ (pat, tz) # after" and t: "test True pat s"
      and no: "\<forall>x \<in> set before. \<not> test True (fst x) s" by blast
  from firstMatch_skip [OF no] eq t show "firstMatch ps s = Some tz" by simp
qed


text \<open>
  Claim C8. The timezone resolver tests its patterns in the declared order and returns the
  timezone of the first pattern that matches: it returns \<open>tz\<close> exactly when the table
  splits into patterns that do not match, then a matching pattern with timezone \<open>tz\<close>. It
  returns absent exactly when no pattern matches, and it is a total function (it never
  throws). On \<^verbatim>\<open>I'm on PST tonight\<close> it returns \<^verbatim>\<open>America/Los_Angeles\<close>, on
  \<^verbatim>\<open>see you in gibberish\<close> it returns absent.
\<close>

theorem parseTimezoneFromText_first_match:
  "(parseTimezoneFromText s = Some tz \<longleftrightarrow>
      (\<exists>before pat after. timezonePatterns = before @ (pat, tz) # after \<and> test True pat s \<and>
         (\<forall>x \<in> set before. \<not> test True (fst x) s))) \<and>
   (parseTimezoneFromText s = None \<longleftrightarrow>
      (\<forall>x \<in> set timezonePatterns. \<not> test True (fst x) s)) \<and>
   parseTimezoneFromText ''I'm on PST tonight'' = Some ''America/Los_Angeles'' \<and>
   parseTimezoneFromText ''see you in gibberish'' = None"
proof -
  have a: "parseTimezoneFromText ''I'm on PST tonight'' = Some ''America/Los_Angeles''"
    by code_simp
  have b: "parseTimezoneFromText ''see you in gibberish'' = None"
    by code_simp
  have c: "parseTimezoneFromText s = Some tz \<longleftrightarrow>
      (\<exists>before pat after. timezonePatterns = before @ (pat, tz) # after \<and> test True pat s \<and>
         (\<forall>x \<in> set before. \<not> test True (fst x) s))"
    unfolding parseTimezoneFromText_def by (rule firstMatch_Some)
  have d: "parseTimezoneFromText s = None \<longleftrightarrow>
      (\<forall>x \<in> set timezonePatterns. \<not> test True (fst x) s)"
    unfolding parseTimezoneFromText_def by (rule firstMatch_None)
  from c d a b show ?thesis by (intro conjI)
qed

text \<open>
  In \<^verbatim>\<open>PST or EST\<close> both the pattern of \<^verbatim>\<open>PST\<close> and the earlier pattern of \<^verbatim>\<open>EST\<close> match:
  the earlier one decides.
\<close>

theorem parseTimezoneFromText_first_match_witness:
  "test True (words [''PST'', ''PDT'', ''Pacific'']) ''PST or EST'' \<and>
   test True (words [''EST'', ''EDT'', ''Eastern'']) ''PST or EST'' \<and>
   parseTimezoneFromText ''PST or EST'' = Some ''America/New_York''"
proof -
  have p: "test True (words [''PST'', ''PDT'', ''Pacific'']) ''PST or EST''" by code_simp
  have e: "test True (words [''EST'', ''EDT'', ''Eastern'']) ''PST or EST''" by code_simp
  have "timezonePatterns =
      [] @ (words [''EST'', ''EDT'', ''Eastern''], ''America/New_York'') # tl timezonePatterns"
    by (simp add: timezonePatterns_def)
  with e have "\<exists>before pat after. timezonePatterns = before @ (pat, ''America/New_York'') # after \<and>
      test True pat ''PST or EST'' \<and> (\<forall>x \<in> set before. \<not> test True (fst x) ''PST or EST'')"
    by (metis empty_iff empty_set)
  with parseTimezoneFromText_first_match [of "''PST or EST''" "''America/New_York''"]
  have "parseTimezoneFromText ''PST or EST'' = Some ''America/New_York''" by blast
  with p e show ?thesis by simp
qed

section \<open>Properties of the meeting-time suggestions\<close>

lemma calculateTimeScore_sides:
  "calculateTimeScore h1 h2 = sideScore h1 + sideScore h2"
  by (simp add: calculateTimeScore_def sideScore_def Let_def)

lemma suggestAt_set:
  "s \<in> set (suggestAt f b e h) \<longleftrightarrow>
     inWindow b e (f h) \<and> s = \<lparr>hour1 = h, hour2 = f h, score = calculateTimeScore h (f h)\<rparr>"
  by (auto simp: suggestAt_def inWindow_def Let_def)

lemma suggestions_set:
  "s \<in> set (concat (map (suggestAt f b e) hs)) \<longleftrightarrow>
     (\<exists>h \<in> set hs. inWindow b e (f h) \<and>
        s = \<lparr>hour1 = h, hour2 = f h, score = calculateTimeScore h (f h)\<rparr>)"
  by (auto simp: suggestAt_set)

lemma suggestions_ascending:
  "sorted_wrt (<) hs \<Longrightarrow>
   sorted_wrt (\<lambda>a b. hour1 a < hour1 b) (concat (map (suggestAt f b e) hs))"
proof (induction hs)
  case Nil
  then show ?case by simp
next
  case (Cons h hs)
  have one: "sorted_wrt (\<lambda>a b. hour1 a < hour1 b) (suggestAt f b e h)"
    by (simp add: suggestAt_def Let_def)
  have "\<forall>x \<in> set (suggestAt f b e h). \<forall>y \<in> set (concat (map (suggestAt f b e) hs)).
          hour1 x < hour1 y"
    using Cons.prems by (auto simp: suggestAt_set)
  with one Cons show ?case
    by (simp add: sorted_wrt_append)
qed

lemma insort_key_ranks:
  fixes f :: "'a \<Rightarrow> 'k::linorder" and g :: "'a \<Rightarrow> int"
  assumes "sorted_wrt (\<lambda>a b. f a < f b \<or> (f a = f b \<and> g a < g b)) ys"
    and "\<forall>y \<in> set ys. g x < g y"
  shows "sorted_wrt (\<lambda>a b. f a < f b \<or> (f a = f b \<and> g a < g b)) (insort_key f x ys)"
  using assms
proof (induction ys)
  case Nil
  then show ?case by simp
next
  case (Cons y ys)
  show ?case
  proof (cases "f x \<le> f y")
    case True
    have "\<forall>z \<in> set (y # ys). f x < f z \<or> (f x = f z \<and> g x < g z)"
    proof
      fix z assume z: "z \<in> set (y # ys)"
      then have "f y \<le> f z" using Cons.prems(1) by auto
      with True have "f x \<le> f z" by simp
      moreover from z Cons.prems(2) have "g x < g z" by auto
      ultimately show "f x < f z \<or> (f x = f z \<and> g x < g z)" by auto
    qed
    with True Cons.prems(1) show ?thesis by simp
  next
    case False
    then have "f y < f x" by simp
    moreover have "sorted_wrt (\<lambda>a b. f a < f b \<or> (f a = f b \<and> g a < g b)) (insort_key f x ys)"
      using Cons by simp
    ultimately show ?thesis using False Cons.prems(1) by (auto simp: set_insort_key)
  qed
qed

lemma sort_key_ranks:
  fixes f :: "'a \<Rightarrow> 'k::linorder" and g :: "'a \<Rightarrow> int"
  assumes "sorted_wrt (\<lambda>a b. g a < g b) xs"
  shows "sorted_wrt (\<lambda>a b. f a < f b \<or> (f a = f b \<and> g a < g b)) (sort_key f xs)"
  using assms
proof (induction xs)
  case Nil
  then show ?case by simp
next
  case (Cons x xs)
  then have "\<forall>y \<in> set (sort_key f xs). g x < g y" by simp
  with Cons show ?case by (simp add: insort_key_ranks)
qed

lemma take_front:
  assumes "sorted_wrt R xs" and "x \<in> set xs"
  shows "x \<in> set (take n xs) \<or> (length (take n xs) = n \<and> (\<forall>s \<in> set (take n xs). R s x))"
proof -
  have split: "xs = take n xs @ drop n xs" by simp
  from assms(2) have "x \<in> set (take n xs) \<or> x \<in> set (drop n xs)"
    by (metis Un_iff set_append split)
  then show ?thesis
  proof
    assume "x \<in> set (take n xs)"
    then show ?thesis by simp
  next
    assume d: "x \<in> set (drop n xs)"
    then have "drop n xs \<noteq> []" by auto
    then have len: "length (take n xs) = n" by simp
    from assms(1) have "sorted_wrt R (take n xs @ drop n xs)" by simp
    then have "\<forall>s \<in> set (take n xs). \<forall>t \<in> set (drop n xs). R s t"
      unfolding sorted_wrt_append by blast
    with d len show ?thesis by blast
  qed
qed


lemma upto_ascending: "sorted_wrt (<) [i .. j :: int]"
  by (simp add: strict_sorted_iff)

lemma sorted_suggestions_ranks:
  "sorted_wrt ranksBefore
     (sort_key (\<lambda>s. - score s) (concat (map (suggestAt f b e) [b .. e - 1])))"
proof -
  have asc: "sorted_wrt (\<lambda>x y. hour1 x < hour1 y) (concat (map (suggestAt f b e) [b .. e - 1]))"
    by (rule suggestions_ascending) (rule upto_ascending)
  have "sorted_wrt (\<lambda>x y. - score x < - score y \<or> (- score x = - score y \<and> hour1 x < hour1 y))
     (sort_key (\<lambda>s. - score s) (concat (map (suggestAt f b e) [b .. e - 1])))"
    by (rule sort_key_ranks [OF asc])
  then show ?thesis
    by (simp add: ranksBefore_def [abs_def])
qed

text \<open>
  Claim C9. For every pair of timezones (every conversion of hours) and every window,
  each suggestion pairs a whole hour of the window of A with its converted hour in B, which
  lies in the window too, and its score is the sum of the two sides' scores; the
  suggestions are at most 5, in descending order of score with equal scores in ascending
  order of A's hour; and every surviving pair that is not among them ranks after all of them.
\<close>

theorem suggestMeetingTimes_ranking:
  "(\<forall>s \<in> set (suggestMeetingTimes hourIn2 bStart bEnd).
      inWindow bStart bEnd (hour1 s) \<and> hour2 s = hourIn2 (hour1 s) \<and>
      inWindow bStart bEnd (hour2 s) \<and> score s = sideScore (hour1 s) + sideScore (hour2 s)) \<and>
   sorted_wrt ranksBefore (suggestMeetingTimes hourIn2 bStart bEnd) \<and>
   length (suggestMeetingTimes hourIn2 bStart bEnd) \<le> 5 \<and>
   (\<forall>h. inWindow bStart bEnd h \<and> inWindow bStart bEnd (hourIn2 h) \<longrightarrow>
      (\<exists>s \<in> set (suggestMeetingTimes hourIn2 bStart bEnd). hour1 s = h) \<or>
      (length (suggestMeetingTimes hourIn2 bStart bEnd) = 5 \<and>
       (\<forall>s \<in> set (suggestMeetingTimes hourIn2 bStart bEnd).
          ranksBefore s \<lparr>hour1 = h, hour2 = hourIn2 h,
                          score = sideScore h + sideScore (hourIn2 h)\<rparr>)))"
proof -
  define all where "all = concat (map (suggestAt hourIn2 bStart bEnd) [bStart .. bEnd - 1])"
  define ranked where "ranked = sort_key (\<lambda>s. - score s) all"
  have out: "suggestMeetingTimes hourIn2 bStart bEnd = take 5 ranked"
    by (simp add: suggestMeetingTimes_def all_def ranked_def)
  have ranked_set: "set ranked = set all"
    by (simp add: ranked_def)
  have ranked_sorted: "sorted_wrt ranksBefore ranked"
    unfolding ranked_def all_def by (rule sorted_suggestions_ranks)
  have members: "\<And>s. s \<in> set all \<longleftrightarrow>
      (\<exists>h \<in> set [bStart .. bEnd - 1]. inWindow bStart bEnd (hourIn2 h) \<and>
         s = \<lparr>hour1 = h, hour2 = hourIn2 h, score = calculateTimeScore h (hourIn2 h)\<rparr>)"
    unfolding all_def by (rule suggestions_set)
  have a: "\<forall>s \<in> set (take 5 ranked).
      inWindow bStart bEnd (hour1 s) \<and> hour2 s = hourIn2 (hour1 s) \<and>
      inWindow bStart bEnd (hour2 s) \<and> score s = sideScore (hour1 s) + sideScore (hour2 s)"
  proof
    fix s assume "s \<in> set (take 5 ranked)"
    then have "s \<in> set all" using ranked_set by (metis in_set_takeD)
    then obtain h where h: "h \<in> set [bStart .. bEnd - 1]" "inWindow bStart bEnd (hourIn2 h)"
      and s: "s = \<lparr>hour1 = h, hour2 = hourIn2 h, score = calculateTimeScore h (hourIn2 h)\<rparr>"
      using members by blast
    from h(1) have "inWindow bStart bEnd h" by (auto simp: inWindow_def)
    with h(2) s show "inWindow bStart bEnd (hour1 s) \<and> hour2 s = hourIn2 (hour1 s) \<and>
      inWindow bStart bEnd (hour2 s) \<and> score s = sideScore (hour1 s) + sideScore (hour2 s)"
      by (simp add: calculateTimeScore_sides)
  qed
  have b: "sorted_wrt ranksBefore (take 5 ranked)"
    using ranked_sorted by (rule sorted_wrt_take)
  have c: "length (take 5 ranked) \<le> 5" by simp
  have d: "\<forall>h. inWindow bStart bEnd h \<and> inWindow bStart bEnd (hourIn2 h) \<longrightarrow>
      (\<exists>s \<in> set (take 5 ranked). hour1 s = h) \<or>
      (length (take 5 ranked) = 5 \<and>
       (\<forall>s \<in> set (take 5 ranked).
          ranksBefore s \<lparr>hour1 = h, hour2 = hourIn2 h,
                          score = sideScore h + sideScore (hourIn2 h)\<rparr>))"
  proof (intro allI impI)
    fix h assume w: "inWindow bStart bEnd h \<and> inWindow bStart bEnd (hourIn2 h)"
    let ?x = "\<lparr>hour1 = h, hour2 = hourIn2 h, score = sideScore h + sideScore (hourIn2 h)\<rparr>"
    from w have "h \<in> set [bStart .. bEnd - 1]" by (auto simp: inWindow_def)
    with w have "?x \<in> set all"
      using members [of ?x] by (auto simp: calculateTimeScore_sides)
    then have "?x \<in> set ranked" using ranked_set by simp
    from take_front [OF ranked_sorted this, of 5]
    show "(\<exists>s \<in> set (take 5 ranked). hour1 s = h) \<or>
      (length (take 5 ranked) = 5 \<and> (\<forall>s \<in> set (take 5 ranked). ranksBefore s ?x))"
    proof
      assume "?x \<in> set (take 5 ranked)"
      then have "\<exists>s \<in> set (take 5 ranked). hour1 s = h"
        by (rule_tac x = ?x in bexI) simp_all
      then show ?thesis ..
    next
      assume "length (take 5 ranked) = 5 \<and> (\<forall>s \<in> set (take 5 ranked). ranksBefore s ?x)"
      then show ?thesis ..
    qed
  qed
  from a b c d show ?thesis unfolding out by (intro conjI)
qed

text \<open>
  From a timezone three hours ahead of the other one, with the window from 9 to 17: the
  hours 12 to 16 survive, the four with both sides in the ideal window come first in
  ascending order, and 12 o'clock (9 o'clock on the other side) comes last.
\<close>

theorem suggestMeetingTimes_ranking_witness:
  "suggestMeetingTimes (\<lambda>h. h - 3) 9 17 =
     [\<lparr>hour1 = 13, hour2 = 10, score = 2\<rparr>, \<lparr>hour1 = 14, hour2 = 11, score = 2\<rparr>,
      \<lparr>hour1 = 15, hour2 = 12, score = 2\<rparr>, \<lparr>hour1 = 16, hour2 = 13, score = 2\<rparr>,
      \<lparr>hour1 = 12, hour2 = 9, score = 3 / 2\<rparr>] \<and>
   sorted_wrt ranksBefore (suggestMeetingTimes (\<lambda>h. h - 3) 9 17) \<and>
   inWindow 9 17 11 \<and> \<not> inWindow 9 17 (11 - 3)"
proof -
  have e: "suggestMeetingTimes (\<lambda>h. h - 3) 9 17 =
     [\<lparr>hour1 = 13, hour2 = 10, score = 2\<rparr>, \<lparr>hour1 = 14, hour2 = 11, score = 2\<rparr>,
      \<lparr>hour1 = 15, hour2 = 12, score = 2\<rparr>, \<lparr>hour1 = 16, hour2 = 13, score = 2\<rparr>,
      \<lparr>hour1 = 12, hour2 = 9, score = 3 / 2\<rparr>]"
    by code_simp
  have w: "inWindow 9 17 11 \<and> \<not> inWindow 9 17 (11 - 3)"
    by (simp add: inWindow_def)
  from suggestMeetingTimes_ranking [of "\<lambda>h. h - 3" 9 17]
  have "sorted_wrt ranksBefore (suggestMeetingTimes (\<lambda>h. h - 3) 9 17)" by blast
  with e w show ?thesis by blast
qed

section \<open>Properties of the local command parser\<close>

lemma matchLit_exact_ci: "matchLit ci l s = Some r \<Longrightarrow> \<not> ci \<Longrightarrow> s = l @ r"
  by (induction ci l s rule: matchLit.induct) (auto simp: sameChar_def split: if_splits)

lemma matchLit_exact: "matchLit False l s = Some r \<Longrightarrow> s = l @ r"
  using matchLit_exact_ci [of False l s r] by simp

lemma digit_not_h: "\<forall>c \<in> set digits. \<not> sameChar True (CHR ''h'') c"
  by code_simp

lemma hour_units_no_digit:
  assumes "firstLit True [''hour'', ''hr'', ''hours''] (c # cs) \<noteq> None"
  shows "\<not> isDigit c"
proof
  assume "isDigit c"
  then have "\<not> sameChar True (CHR ''h'') c"
    using digit_not_h by (simp add: isDigit_def)
  then have "firstLit True [''hour'', ''hr'', ''hours''] (c # cs) = None" by simp
  with assms show False by simp
qed

lemma digit_not_space: "\<forall>c \<in> set digits. \<not> isSpace c"
  by code_simp

text \<open>
  Wherever the pattern of fractional hours matches, the pattern of whole hours matches too,
  from the digit 5 of the fraction on.
\<close>

lemma fractional_hours_shadowed:
  assumes "searchFrom (durationHere \<lparr>fractional = True, units = [''hour'', ''hr'', ''hours'']\<rparr>)
             None command \<noteq> None"
  shows "searchFrom (durationHere \<lparr>fractional = False, units = [''hour'', ''hr'', ''hours'']\<rparr>)
           None command \<noteq> None"
proof -
  let ?us = "[''hour'', ''hr'', ''hours'']"
  from assms obtain m where
    "searchFrom (durationHere \<lparr>fractional = True, units = ?us\<rparr>) None command = Some m"
    by auto
  from searchFrom_sound [OF this] obtain pre rest where
    c: "command = pre @ rest" and
    h: "durationHere \<lparr>fractional = True, units = ?us\<rparr> (charBefore None pre) rest = Some m"
    by blast
  from h obtain rest' where
    ds: "takeWhile isDigit rest \<noteq> []"
    and lit: "matchLit False ''.5'' (dropWhile isDigit rest) = Some rest'"
    and u: "firstLit True ?us (dropWhile isSpace rest') \<noteq> None"
    by (auto simp: durationHere_def Let_def unitAfter_def split: if_splits option.splits)
  from matchLit_exact [OF lit] have "dropWhile isDigit rest = ''.5'' @ rest'" .
  then have "rest = (takeWhile isDigit rest @ ''.'') @ (CHR ''5'' # rest')"
    by (metis append.assoc append_Cons append_Nil takeWhile_dropWhile_id)
  with c have split: "command = (pre @ takeWhile isDigit rest @ ''.'') @ (CHR ''5'' # rest')"
    by simp
  have nodigit: "dropWhile isDigit rest' = rest'"
  proof (cases rest')
    case Nil
    then show ?thesis by simp
  next
    case (Cons x xs)
    show ?thesis
    proof (cases "isDigit x")
      case True
      then have "\<not> isSpace x" using digit_not_space by (simp add: isDigit_def)
      with Cons u have "firstLit True ?us (x # xs) \<noteq> None" by simp
      from hour_units_no_digit [OF this] True show ?thesis by simp
    next
      case False
      with Cons show ?thesis by simp
    qed
  qed
  have five: "isDigit (CHR ''5'')" by code_simp
  have "durationHere \<lparr>fractional = False, units = ?us\<rparr>
          (charBefore None (pre @ takeWhile isDigit rest @ ''.'')) (CHR ''5'' # rest') \<noteq> None"
    using five nodigit u by (simp add: durationHere_def Let_def unitAfter_def split: option.splits)
  then have "searchFrom (durationHere \<lparr>fractional = False, units = ?us\<rparr>) None
      ((pre @ takeWhile isDigit rest @ ''.'') @ (CHR ''5'' # rest')) \<noteq> None"
    by (rule searchFrom_complete
          [of "durationHere \<lparr>fractional = False, units = ?us\<rparr>" None
              "pre @ takeWhile isDigit rest @ ''.''" "CHR ''5'' # rest'"])
  with split show ?thesis by simp
qed

text \<open>So the third pattern never decides the duration.\<close>

lemma parseDuration_two_patterns:
  "parseDuration command = durationLoop (take 2 durationPatterns) command"
proof (cases "searchFrom (durationHere \<lparr>fractional = False, units = [''hour'', ''hr'', ''hours'']\<rparr>)
                None command")
  case None
  have "searchFrom (durationHere \<lparr>fractional = True, units = [''hour'', ''hr'', ''hours'']\<rparr>)
          None command = None"
  proof (rule ccontr)
    assume "searchFrom (durationHere \<lparr>fractional = True, units = [''hour'', ''hr'', ''hours'']\<rparr>)
          None command \<noteq> None"
    from fractional_hours_shadowed [OF this] None show False by simp
  qed
  with None show ?thesis
    by (simp add: parseDuration_def durationPatterns_def split: option.splits)
next
  case (Some m)
  then show ?thesis
    by (simp add: parseDuration_def durationPatterns_def split: option.splits)
qed

text \<open>
  Claim C2. Duration extraction converts a mention in hours to minutes: \<^verbatim>\<open>1.5 hours\<close> should
  give 90, \<^verbatim>\<open>45 minute\<close> gives 45 and a command with no duration gives absent. The code
  gives 300 for \<^verbatim>\<open>1.5 hours\<close>: the pattern of whole hours is tried before the pattern of
  fractional hours and matches \<^verbatim>\<open>5 hours\<close> inside \<^verbatim>\<open>1.5 hours\<close> (as it does wherever the
  pattern of fractional hours matches). The other two results are as claimed.
\<close>

theorem parseDuration_fractional_hours:
  "parseDuration ''let's meet for 1.5 hours'' = Some 300 \<and>
   parseDuration ''a 45 minute call'' = Some 45 \<and>
   parseDuration ''no duration mentioned'' = None"
  by code_simp


lemma isUpper_word: "isUpper c \<Longrightarrow> isWordChar c"
  by (simp add: isWordChar_def)

lemma upperRun_sound:
  assumes "upperRun n s = Some tok" and "0 < n"
  shows "\<exists>post. s = tok @ post \<and> length tok = n \<and> list_all isUpper tok \<and>
           (post = [] \<or> \<not> isWordChar (hd post))"
proof -
  from assms(1) have n: "n \<le> length s" and up: "list_all isUpper (take n s)"
    and b: "boundary (Some (last (take n s))) (drop n s)" and tok: "tok = take n s"
    by (auto simp: upperRun_def split: if_splits)
  from n assms(2) have ne: "take n s \<noteq> []" by auto
  with up have "isUpper (last (take n s))" by (simp add: list_all_iff)
  then have "isWordChar (last (take n s))" by (rule isUpper_word)
  with b have "\<not> wordAfter (drop n s)" by (simp add: boundary_def wordBefore_def)
  then have "drop n s = [] \<or> \<not> isWordChar (hd (drop n s))"
    by (cases "drop n s") (simp_all add: wordAfter_def)
  moreover have "s = take n s @ drop n s" by simp
  moreover have "length (take n s) = n" using n by simp
  ultimately have "s = take n s @ drop n s \<and> length (take n s) = n \<and>
      list_all isUpper (take n s) \<and> (drop n s = [] \<or> \<not> isWordChar (hd (drop n s)))"
    using up by simp
  then show ?thesis unfolding tok by (rule_tac x = "drop n s" in exI)
qed

lemma upperRun_complete:
  assumes "list_all isUpper tok" and "tok \<noteq> []" and "post = [] \<or> \<not> isWordChar (hd post)"
  shows "upperRun (length tok) (tok @ post) = Some tok"
proof -
  from assms(1,2) have "isWordChar (last tok)" by (simp add: list_all_iff isUpper_word)
  moreover from assms(3) have "\<not> wordAfter post" by (cases post) (simp_all add: wordAfter_def)
  ultimately have "boundary (Some (last tok)) post" by (simp add: boundary_def wordBefore_def)
  with assms(1) show ?thesis by (simp add: upperRun_def)
qed

lemma tokenHere_sound:
  assumes "tokenHere prev s = Some tok"
  shows "\<exists>post. s = tok @ post \<and> (length tok = 3 \<or> length tok = 4) \<and> list_all isUpper tok \<and>
           \<not> wordBefore prev \<and> (post = [] \<or> \<not> isWordChar (hd post))"
proof -
  from assms have b: "boundary prev s"
    and r: "upperRun 4 s = Some tok \<or> upperRun 3 s = Some tok"
    by (auto simp: tokenHere_def split: if_splits option.splits)
  from r obtain post where p: "s = tok @ post" "length tok = 3 \<or> length tok = 4"
      "list_all isUpper tok" "post = [] \<or> \<not> isWordChar (hd post)"
    using upperRun_sound [of 4 s tok] upperRun_sound [of 3 s tok] by auto
  from p(2) have ne: "tok \<noteq> []" by auto
  with p(3) have "isWordChar (hd tok)" by (cases tok) (simp_all add: isUpper_word)
  with p(1) ne have "wordAfter s" by (cases tok) (simp_all add: wordAfter_def)
  with b have "\<not> wordBefore prev" by (simp add: boundary_def)
  with p show ?thesis by blast
qed

lemma tokenHere_complete:
  assumes "length tok = 3 \<or> length tok = 4" and "list_all isUpper tok"
    and "\<not> wordBefore prev" and "post = [] \<or> \<not> isWordChar (hd post)"
  shows "tokenHere prev (tok @ post) \<noteq> None"
proof -
  from assms(1) have ne: "tok \<noteq> []" by auto
  with assms(2) have "isWordChar (hd tok)" by (cases tok) (simp_all add: isUpper_word)
  with ne have "wordAfter (tok @ post)" by (cases tok) (simp_all add: wordAfter_def)
  with assms(3) have b: "boundary prev (tok @ post)" by (simp add: boundary_def)
  have run: "upperRun (length tok) (tok @ post) = Some tok"
    using assms(2) ne assms(4) by (rule upperRun_complete)
  from assms(1) show ?thesis
  proof
    assume "length tok = 3"
    with run have "upperRun 3 (tok @ post) = Some tok" by simp
    with b show ?thesis by (simp add: tokenHere_def split: option.splits)
  next
    assume "length tok = 4"
    with run have "upperRun 4 (tok @ post) = Some tok" by simp
    with b show ?thesis by (simp add: tokenHere_def)
  qed
qed

lemma wordBefore_charBefore:
  "\<not> wordBefore (charBefore None pre) \<longleftrightarrow> (pre = [] \<or> \<not> isWordChar (last pre))"
  by (cases "pre = []") (simp_all add: wordBefore_def charBefore_def)

lemma token_found:
  assumes "hasToken command"
  shows "\<exists>pre tok post. command = pre @ tok @ post \<and> isToken pre tok post \<and>
           searchFrom tokenHere None command = Some tok"
proof -
  from assms obtain pre tok post where c: "command = pre @ tok @ post"
    and t: "isToken pre tok post" by (auto simp: hasToken_def)
  from t have "tokenHere (charBefore None pre) (tok @ post) \<noteq> None"
    by (intro tokenHere_complete) (simp_all add: isToken_def wordBefore_charBefore)
  then have "searchFrom tokenHere None (pre @ (tok @ post)) \<noteq> None"
    by (rule searchFrom_complete)
  with c obtain tok' where found: "searchFrom tokenHere None command = Some tok'" by auto
  from searchFrom_sound [OF this] obtain pre' rest where
    c': "command = pre' @ rest" and
    h: "tokenHere (charBefore None pre') rest = Some tok'" by blast
  from tokenHere_sound [OF h] obtain post' where
    r: "rest = tok' @ post'" and l: "length tok' = 3 \<or> length tok' = 4"
    and u: "list_all isUpper tok'"
    and w: "\<not> wordBefore (charBefore None pre')"
    and a: "post' = [] \<or> \<not> isWordChar (hd post')" by blast
  from w have "pre' = [] \<or> \<not> isWordChar (last pre')"
    by (simp add: wordBefore_charBefore)
  with l u a have "isToken pre' tok' post'" by (simp add: isToken_def)
  with c' r found show ?thesis by blast
qed

lemma localParse_timezone:
  "localParse chronoParsed systemTimeZone command context ''timezone'' =
     (case searchFrom tokenHere None command of
        Some tok \<Rightarrow> Some (JStr (convertTimezoneAbbreviation systemTimeZone tok))
      | None \<Rightarrow> Some JNull)"
proof -
  have p: "setParticipant context emptyParsed ''timezone'' = Some JNull"
    by (simp add: setParticipant_def Let_def emptyParsed_def)
  have d: "\<And>m. setDateTime chronoParsed m ''timezone'' = m ''timezone''"
    by (simp add: setDateTime_def Let_def split: list.splits)
  have u: "\<And>m. setDuration command m ''timezone'' = m ''timezone''"
    by (simp add: setDuration_def split: option.splits)
  have l: "\<And>m. setPlatform command m ''timezone'' = m ''timezone''"
    by (simp add: setPlatform_def Let_def split: option.splits)
  have t: "\<And>m. setTimezone systemTimeZone command m ''timezone'' =
     (case searchFrom tokenHere None command of
        Some tok \<Rightarrow> Some (JStr (convertTimezoneAbbreviation systemTimeZone tok))
      | None \<Rightarrow> m ''timezone'')"
    by (simp add: setTimezone_def Let_def split: option.splits)
  show ?thesis
    unfolding localParse_def Let_def t l u d p ..
qed


text \<open>
  Claim C10. For every command that contains a token of three or four capital letters,
  \<^verbatim>\<open>localParse\<close> sets the timezone field to a string, never leaving it absent: the
  identifier that the abbreviation table has for a token of the command, and the system's
  timezone when the table has none for it.
\<close>

theorem localParse_timezone_token:
  assumes "hasToken command"
  shows "\<exists>pre tok post. command = pre @ tok @ post \<and> isToken pre tok post \<and>
           localParse chronoParsed systemTimeZone command context ''timezone'' =
             Some (JStr (case map_of timezoneMap tok of
                           Some tz \<Rightarrow> tz | None \<Rightarrow> systemTimeZone))"
proof -
  from token_found [OF assms] obtain pre tok post where
    c: "command = pre @ tok @ post" and t: "isToken pre tok post"
    and f: "searchFrom tokenHere None command = Some tok" by blast
  from f have "localParse chronoParsed systemTimeZone command context ''timezone'' =
      Some (JStr (case map_of timezoneMap tok of Some tz \<Rightarrow> tz | None \<Rightarrow> systemTimeZone))"
    by (simp add: localParse_timezone convertTimezoneAbbreviation_def)
  with c t show ?thesis
    by (rule_tac x = pre in exI, rule_tac x = tok in exI, rule_tac x = post in exI) simp
qed

text \<open>
  \<^verbatim>\<open>ASAP call at 3pm EST\<close>: the first token is \<^verbatim>\<open>ASAP\<close>, which the table does not have, and the
  field is the system's timezone although \<^verbatim>\<open>EST\<close> follows.
\<close>

theorem localParse_timezone_token_witness:
  "hasToken ''ASAP call at 3pm EST'' \<and>
   (\<exists>pre tok post. ''ASAP call at 3pm EST'' = pre @ tok @ post \<and> isToken pre tok post \<and>
      localParse [] ''Europe/Berlin'' ''ASAP call at 3pm EST'' None ''timezone'' =
        Some (JStr (case map_of timezoneMap tok of
                      Some tz \<Rightarrow> tz | None \<Rightarrow> ''Europe/Berlin''))) \<and>
   localParse [] ''Europe/Berlin'' ''ASAP call at 3pm EST'' None ''timezone'' =
     Some (JStr ''Europe/Berlin'')"
proof -
  have "isToken [] ''ASAP'' '' call at 3pm EST''"
    by (simp add: isToken_def isUpper_def upperLetters_def isWordChar_def isDigit_def
        isLower_def digits_def lowerLetters_def)
  then have "''ASAP call at 3pm EST'' = [] @ ''ASAP'' @ '' call at 3pm EST'' \<and>
      isToken [] ''ASAP'' '' call at 3pm EST''" by simp
  then have h: "hasToken ''ASAP call at 3pm EST''"
    unfolding hasToken_def
    by (rule_tac x = "[]" in exI, rule_tac x = "''ASAP''" in exI,
        rule_tac x = "'' call at 3pm EST''" in exI)
  have v: "localParse [] ''Europe/Berlin'' ''ASAP call at 3pm EST'' None ''timezone'' =
     Some (JStr ''Europe/Berlin'')"
    by code_simp
  from h localParse_timezone_token [OF h, of "[]" "''Europe/Berlin''" None] v
  show ?thesis by (intro conjI)
qed

section \<open>Properties of the validator\<close>

text \<open>
  Claim C5. For every parsed request and every context (also an undefined or null one, or
  one without participant information) \<^verbatim>\<open>validateMeetingData\<close> returns a result: the
  function is total. Its missing list is built in the order email, date, time; email is
  missing only when neither the parsed request nor the context's participant information
  has one; date and time depend on the parsed request alone; the result is valid exactly
  when nothing is missing. For an empty parse with no context email the missing list is
  email, date, time and the result is not valid; with a context email it is date, time.
\<close>

theorem validateMeetingData_missing:
  "missing (validateMeetingData parsed context) =
     (if truthy (parsed ''email'') \<or>
         truthy (optRead (optRead context ''participantInfo'') ''email'')
      then [] else [''email'']) @
     (if truthy (parsed ''date'') then [] else [''date'']) @
     (if truthy (parsed ''time'') then [] else [''time'']) \<and>
   isValid (validateMeetingData parsed context) =
     (missing (validateMeetingData parsed context) = []) \<and>
   validateMeetingData emptyParsed None =
     \<lparr>isValid = False, missing = [''email'', ''date'', ''time'']\<rparr> \<and>
   validateMeetingData Map.empty
       (Some (JObj [(''participantInfo'', JObj [(''name'', JStr ''Ann'')])])) =
     \<lparr>isValid = False, missing = [''email'', ''date'', ''time'']\<rparr> \<and>
   validateMeetingData emptyParsed
       (Some (JObj [(''participantInfo'', JObj [(''email'', JStr ''ann@x.com'')])])) =
     \<lparr>isValid = False, missing = [''date'', ''time'']\<rparr>"
  by (simp add: validateMeetingData_def truthy_def optRead_def emptyParsed_def)


section \<open>Properties of the request refiner\<close>

lemma contentOf_reply:
  "contentOf (JObj [(''choices'', JArr [JObj [(''message'', JObj [(''content'', JStr c)])]])])
     = Returns (Some (JStr c))"
  by (simp add: contentOf_def andThen_def read_def indexed_def digits_def)

lemma tryParse_reply:
  "tryParse P (reply c) local = andThen (P (Some (JStr c))) (mergeParsed local)"
  by (simp add: tryParse_def reply_def andThen_def ok_def contentOf_reply)

lemma mergeParsed_null: "mergeParsed local JNull = Throws"
  by (simp add: mergeParsed_def read_def andThen_def)

text \<open>
  Claim C3, as amended. For every command, context and local parse (the first two only
  shape the request), if the remote call fails by a request that throws, a status that
  is not a success, a body that is not JSON or has no \<^verbatim>\<open>choices[0].message.content\<close>, or a
  content that is not JSON or is \<^verbatim>\<open>null\<close>, the refiner returns the local parse unchanged.
  It is a total function: no error leaves it.
\<close>

theorem aiEnhancedParse_fallback:
  "remoteFails JSON_parse fetched \<Longrightarrow> aiEnhancedParse JSON_parse fetched local = local"
  by (auto simp: remoteFails_def aiEnhancedParse_def tryParse_def andThen_def mergeParsed_null
      split: outcome.splits)

text \<open>A response with status 500: the local parse comes back, whatever it is.\<close>

theorem aiEnhancedParse_fallback_witness:
  "\<forall>JSON_parse local.
     remoteFails JSON_parse (Returns \<lparr>status = 500, body = Throws\<rparr>) \<and>
     aiEnhancedParse JSON_parse (Returns \<lparr>status = 500, body = Throws\<rparr>) local = local"
proof (intro allI)
  fix JSON_parse :: "jsval \<Rightarrow> json outcome" and local :: obj
  have f: "remoteFails JSON_parse (Returns \<lparr>status = 500, body = Throws\<rparr>)"
    by (simp add: remoteFails_def ok_def)
  from f aiEnhancedParse_fallback [OF f, of local]
  show "remoteFails JSON_parse (Returns \<lparr>status = 500, body = Throws\<rparr>) \<and>
     aiEnhancedParse JSON_parse (Returns \<lparr>status = 500, body = Throws\<rparr>) local = local"
    by simp
qed

text \<open>
  Claim C3 as stated fails for a body that violates the schema: a content whose date is a
  number is well-formed JSON, nothing checks it against the schema, and it is merged into
  the result, which then differs from the local parse.
\<close>

theorem aiEnhancedParse_schema_violation:
  "aiEnhancedParse
     (\<lambda>content. if content = Some (JStr ''{\"date\":20240101}'')
                then Returns (JObj [(''date'', JNum 20240101)]) else Throws)
     (reply ''{\"date\":20240101}'') emptyParsed ''date'' = Some (JNum 20240101) \<and>
   emptyParsed ''date'' = Some JNull \<and>
   aiEnhancedParse
     (\<lambda>content. if content = Some (JStr ''{\"date\":20240101}'')
                then Returns (JObj [(''date'', JNum 20240101)]) else Throws)
     (reply ''{\"date\":20240101}'') emptyParsed \<noteq> emptyParsed"
proof -
  let ?P = "\<lambda>content. if content = Some (JStr ''{\"date\":20240101}'')
                then Returns (JObj [(''date'', JNum 20240101)]) else Throws"
  have a: "aiEnhancedParse ?P (reply ''{\"date\":20240101}'') emptyParsed ''date''
             = Some (JNum 20240101)"
    by (simp add: aiEnhancedParse_def tryParse_reply andThen_def mergeParsed_def read_def
        emptyParsed_def orElse_def truthy_def)
  have b: "emptyParsed ''date'' = Some JNull"
    by (simp add: emptyParsed_def)
  from a b have "aiEnhancedParse ?P (reply ''{\"date\":20240101}'') emptyParsed \<noteq> emptyParsed"
    by (metis json.distinct(3) option.inject)
  with a b show ?thesis by simp
qed


lemma mergeParsed_object:
  "mergeParsed local (JObj kvs) =
     Returns ((local ++ ownProps (JObj kvs))
        (''participantName'' :=
            orElse (ownProps (JObj kvs) ''participantName'') (local ''participantName''),
         ''email'' := orElse (ownProps (JObj kvs) ''email'') (local ''email'')))"
  by (simp add: mergeParsed_def read_def andThen_def)

lemma aiEnhancedParse_success:
  assumes "fetched = Returns r" and "ok r" and "body r = Returns data"
    and "contentOf data = Returns content" and "JSON_parse content = Returns (JObj kvs)"
  shows "aiEnhancedParse JSON_parse fetched local =
     (local ++ ownProps (JObj kvs))
        (''participantName'' :=
            orElse (ownProps (JObj kvs) ''participantName'') (local ''participantName''),
         ''email'' := orElse (ownProps (JObj kvs) ''email'') (local ''email''))"
  using assms
  by (simp add: aiEnhancedParse_def tryParse_def andThen_def mergeParsed_object)

text \<open>
  Claim C4. On a successful refinement (the model's content parses to an object) the merged
  result retains the local value of every field that is absent from the model's response;
  it takes every field that is present in the response from the response, where for the
  participant name and the email present means a truthy value; and for the participant
  name and the email it falls back to the local value whenever the model omits them, by
  leaving them out or by an empty or null value.
\<close>

theorem aiEnhancedParse_merge:
  assumes "fetched = Returns r" and "ok r" and "body r = Returns data"
    and "contentOf data = Returns content" and "JSON_parse content = Returns (JObj kvs)"
  shows "(\<forall>k. ownProps (JObj kvs) k = None \<longrightarrow>
            aiEnhancedParse JSON_parse fetched local k = local k) \<and>
         (\<forall>k v. ownProps (JObj kvs) k = Some v \<and>
                (truthyJson v \<or> k \<notin> {''participantName'', ''email''}) \<longrightarrow>
            aiEnhancedParse JSON_parse fetched local k = Some v) \<and>
         (\<forall>k \<in> {''participantName'', ''email''}.
            \<not> truthy (ownProps (JObj kvs) k) \<longrightarrow>
            aiEnhancedParse JSON_parse fetched local k = local k)"
proof -
  have eq: "aiEnhancedParse JSON_parse fetched local =
     (local ++ ownProps (JObj kvs))
        (''participantName'' :=
            orElse (ownProps (JObj kvs) ''participantName'') (local ''participantName''),
         ''email'' := orElse (ownProps (JObj kvs) ''email'') (local ''email''))"
    using assms by (rule aiEnhancedParse_success)
  have a: "\<forall>k. ownProps (JObj kvs) k = None \<longrightarrow>
            aiEnhancedParse JSON_parse fetched local k = local k"
    unfolding eq by (auto simp: orElse_def truthy_def map_add_def split: option.splits)
  have b: "\<forall>k v. ownProps (JObj kvs) k = Some v \<and>
                (truthyJson v \<or> k \<notin> {''participantName'', ''email''}) \<longrightarrow>
            aiEnhancedParse JSON_parse fetched local k = Some v"
    unfolding eq by (auto simp: orElse_def truthy_def map_add_def split: option.splits)
  have c: "\<forall>k \<in> {''participantName'', ''email''}.
            \<not> truthy (ownProps (JObj kvs) k) \<longrightarrow>
            aiEnhancedParse JSON_parse fetched local k = local k"
    unfolding eq by (auto simp: orElse_def)
  from a b c show ?thesis by (intro conjI)
qed


text \<open>
  The local parse with email \<^verbatim>\<open>a@x.com\<close> and no date, merged with the response that has only
  the date \<^verbatim>\<open>2024-01-01\<close>: the result has that email and that date.
\<close>

theorem aiEnhancedParse_merge_witness:
  "aiEnhancedParse
     (\<lambda>content. if content = Some (JStr ''{\"date\":\"2024-01-01\"}'')
                then Returns (JObj [(''date'', JStr ''2024-01-01'')]) else Throws)
     (reply ''{\"date\":\"2024-01-01\"}'')
     (emptyParsed(''email'' \<mapsto> JStr ''a@x.com'')) ''email'' = Some (JStr ''a@x.com'') \<and>
   aiEnhancedParse
     (\<lambda>content. if content = Some (JStr ''{\"date\":\"2024-01-01\"}'')
                then Returns (JObj [(''date'', JStr ''2024-01-01'')]) else Throws)
     (reply ''{\"date\":\"2024-01-01\"}'')
     (emptyParsed(''email'' \<mapsto> JStr ''a@x.com'')) ''date'' = Some (JStr ''2024-01-01'') \<and>
   emptyParsed ''date'' = Some JNull"
proof -
  let ?c = "''{\"date\":\"2024-01-01\"}''"
  let ?P = "\<lambda>content. if content = Some (JStr ?c)
                then Returns (JObj [(''date'', JStr ''2024-01-01'')]) else Throws"
  let ?data = "JObj [(''choices'', JArr [JObj [(''message'', JObj [(''content'', JStr ?c)])]])]"
  let ?r = "\<lparr>status = 200, body = Returns ?data\<rparr>"
  let ?local = "emptyParsed(''email'' \<mapsto> JStr ''a@x.com'')"
  have 1: "reply ?c = Returns ?r" by (simp add: reply_def)
  have 2: "ok ?r" by (simp add: ok_def)
  have 3: "body ?r = Returns ?data" by simp
  have 4: "contentOf ?data = Returns (Some (JStr ?c))" by (rule contentOf_reply)
  have 5: "?P (Some (JStr ?c)) = Returns (JObj [(''date'', JStr ''2024-01-01'')])" by simp
  have m: "(\<forall>k. ownProps (JObj [(''date'', JStr ''2024-01-01'')]) k = None \<longrightarrow>
            aiEnhancedParse ?P (reply ?c) ?local k = ?local k) \<and>
         (\<forall>k v. ownProps (JObj [(''date'', JStr ''2024-01-01'')]) k = Some v \<and>
                (truthyJson v \<or> k \<notin> {''participantName'', ''email''}) \<longrightarrow>
            aiEnhancedParse ?P (reply ?c) ?local k = Some v) \<and>
         (\<forall>k \<in> {''participantName'', ''email''}.
            \<not> truthy (ownProps (JObj [(''date'', JStr ''2024-01-01'')]) k) \<longrightarrow>
            aiEnhancedParse ?P (reply ?c) ?local k = ?local k)"
    using 1 2 3 4 5 by (rule aiEnhancedParse_merge)
  have e: "ownProps (JObj [(''date'', JStr ''2024-01-01'')]) ''email'' = None" by simp
  have d: "ownProps (JObj [(''date'', JStr ''2024-01-01'')]) ''date'' = Some (JStr ''2024-01-01'')"
    by simp
  from m e have "aiEnhancedParse ?P (reply ?c) ?local ''email'' = ?local ''email''" by blast
  then have email: "aiEnhancedParse ?P (reply ?c) ?local ''email'' = Some (JStr ''a@x.com'')"
    by simp
  from m d have date: "aiEnhancedParse ?P (reply ?c) ?local ''date'' = Some (JStr ''2024-01-01'')"
    by simp
  have "emptyParsed ''date'' = Some JNull" by (simp add: emptyParsed_def)
  with email date show ?thesis by simp
qed

section \<open>Properties of the temporal expression parser\<close>

lemma weekday_texts:
  "\<forall>name \<in> set daysOfWeek. \<forall>modifier \<in> set [''this'', ''next''].
     \<not> test False (words [''today'']) (modifier @ '' '' @ name) \<and>
     \<not> test False (words [''tomorrow'']) (modifier @ '' '' @ name) \<and>
     \<not> test False (words [''yesterday'']) (modifier @ '' '' @ name) \<and>
     \<not> test False (words [''next week'']) (modifier @ '' '' @ name) \<and>
     \<not> test False (words [''this week'']) (modifier @ '' '' @ name) \<and>
     searchFrom dayHere None (modifier @ '' '' @ name) = Some (modifier, name) \<and>
     toLowerCase name = name \<and>
     0 \<le> indexOf daysOfWeek name \<and> indexOf daysOfWeek name \<le> 6"
  by code_simp


lemma weekday_text:
  assumes "name \<in> set daysOfWeek" and "modifier = ''this'' \<or> modifier = ''next''"
  shows "\<not> test False (words [''today'']) (modifier @ '' '' @ name)"
    and "\<not> test False (words [''tomorrow'']) (modifier @ '' '' @ name)"
    and "\<not> test False (words [''yesterday'']) (modifier @ '' '' @ name)"
    and "\<not> test False (words [''next week'']) (modifier @ '' '' @ name)"
    and "\<not> test False (words [''this week'']) (modifier @ '' '' @ name)"
    and "searchFrom dayHere None (modifier @ '' '' @ name) = Some (modifier, name)"
    and "toLowerCase name = name"
    and "0 \<le> indexOf daysOfWeek name" and "indexOf daysOfWeek name \<le> 6"
proof -
  from assms(2) have m: "modifier \<in> set [''this'', ''next'']" by auto
  note all = weekday_texts [rule_format, OF assms(1) m]
  from all show "\<not> test False (words [''today'']) (modifier @ '' '' @ name)" by (elim conjE)
  from all show "\<not> test False (words [''tomorrow'']) (modifier @ '' '' @ name)" by (elim conjE)
  from all show "\<not> test False (words [''yesterday'']) (modifier @ '' '' @ name)" by (elim conjE)
  from all show "\<not> test False (words [''next week'']) (modifier @ '' '' @ name)" by (elim conjE)
  from all show "\<not> test False (words [''this week'']) (modifier @ '' '' @ name)" by (elim conjE)
  from all show "searchFrom dayHere None (modifier @ '' '' @ name) = Some (modifier, name)"
    by (elim conjE)
  from all show "toLowerCase name = name" by (elim conjE)
  from all show "0 \<le> indexOf daysOfWeek name" by (elim conjE)
  from all show "indexOf daysOfWeek name \<le> 6" by (elim conjE)
qed

lemma lower_modifiers:
  "toLowerCase ''this'' = ''this'' \<and> toLowerCase ''next'' = ''next''"
  by code_simp

lemma parseRelativeTime_modifier:
  assumes "name \<in> set daysOfWeek" and "modifier = ''this'' \<or> modifier = ''next''"
    and "toLowerCase text = modifier @ '' '' @ name"
  shows "parseRelativeTime zone text ref =
     Some (Instant (if modifier = ''next'' \<or>
                       isBeforeDay (setDay zone (indexOf daysOfWeek name) ref) ref
                    then addDays zone 7 (setDay zone (indexOf daysOfWeek name) ref)
                    else setDay zone (indexOf daysOfWeek name) ref))"
proof -
  define lowerText where "lowerText = modifier @ '' '' @ name"
  note t = weekday_text [OF assms(1,2), folded lowerText_def]
  have low: "toLowerCase modifier = modifier"
    using assms(2) lower_modifiers by auto
  have l: "toLowerCase text = lowerText"
    using assms(3) by (simp add: lowerText_def)
  show ?thesis
    unfolding parseRelativeTime_def Let_def l
    by (simp add: t low)
qed

text \<open>
  Claim C6, as amended. For every reference instant, in every timezone, and every named
  weekday, the parser selects a target: one of the seven days of the reference instant's
  week (Sunday to Saturday), as the library's \<^verbatim>\<open>.day(n)\<close> gives it from the reference
  instant. Parsing \<^verbatim>\<open>this <weekday>\<close> when the target day is not before the reference day
  resolves to the target, the current week's occurrence; when the target day has passed,
  it resolves to one week after the target, the following week's occurrence; and parsing
  \<^verbatim>\<open>next <weekday>\<close> resolves to one week after the target in both cases. So
  \<^verbatim>\<open>next <weekday>\<close> is one full week beyond \<^verbatim>\<open>this <weekday>\<close> when the target day has not
  passed, and the same as \<^verbatim>\<open>this <weekday>\<close> when it has.
\<close>

theorem parseRelativeTime_weekday:
  assumes "name \<in> set daysOfWeek"
    and "toLowerCase thisText = ''this '' @ name"
    and "toLowerCase nextText = ''next '' @ name"
  shows "\<exists>n target.
           0 \<le> n \<and> n \<le> 6 \<and> target = setDay zone n ref \<and>
           parseRelativeTime zone thisText ref =
             Some (Instant (if dayNumber target < dayNumber ref
                            then addDays zone 7 target else target)) \<and>
           parseRelativeTime zone nextText ref = Some (Instant (addDays zone 7 target))"
proof -
  let ?n = "indexOf daysOfWeek name"
  let ?target = "setDay zone ?n ref"
  have i: "0 \<le> ?n" "?n \<le> 6"
    using weekday_text(8,9) [OF assms(1), of "''this''"] by simp_all
  have "toLowerCase thisText = ''this'' @ '' '' @ name" using assms(2) by simp
  from parseRelativeTime_modifier [OF assms(1) _ this, of zone ref]
  have d: "parseRelativeTime zone thisText ref =
             Some (Instant (if dayNumber ?target < dayNumber ref
                            then addDays zone 7 ?target else ?target))"
    by (simp add: isBeforeDay_def)
  have "toLowerCase nextText = ''next'' @ '' '' @ name" using assms(3) by simp
  from parseRelativeTime_modifier [OF assms(1) _ this, of zone ref]
  have e: "parseRelativeTime zone nextText ref = Some (Instant (addDays zone 7 ?target))"
    by simp
  from i d e have "0 \<le> ?n \<and> ?n \<le> 6 \<and> ?target = setDay zone ?n ref \<and>
           parseRelativeTime zone thisText ref =
             Some (Instant (if dayNumber ?target < dayNumber ref
                            then addDays zone 7 ?target else ?target)) \<and>
           parseRelativeTime zone nextText ref = Some (Instant (addDays zone 7 ?target))"
    by simp
  then show ?thesis
    by (rule_tac x = ?n in exI, rule_tac x = ?target in exI)
qed

text \<open>
  From Wednesday, 3 January 2024 (day 19725), at 10 o'clock, in a timezone at a fixed
  offset: the hypotheses hold for Friday, the target day has not passed, and
  \<^verbatim>\<open>next Friday\<close> is one full week beyond \<^verbatim>\<open>this Friday\<close>.
\<close>

theorem parseRelativeTime_weekday_witness:
  "''friday'' \<in> set daysOfWeek \<and>
   toLowerCase ''this Friday'' = ''this '' @ ''friday'' \<and>
   toLowerCase ''next Friday'' = ''next '' @ ''friday'' \<and>
   (\<exists>n target.
      0 \<le> n \<and> n \<le> 6 \<and>
      target = setDay fixedOffset n \<lparr>dayNumber = 19725, msOfDay = 36000000\<rparr> \<and>
      19725 \<le> dayNumber target \<and>
      parseRelativeTime fixedOffset ''this Friday'' \<lparr>dayNumber = 19725, msOfDay = 36000000\<rparr> =
        Some (Instant target) \<and>
      parseRelativeTime fixedOffset ''next Friday'' \<lparr>dayNumber = 19725, msOfDay = 36000000\<rparr> =
        Some (Instant (addDays fixedOffset 7 target)))"
proof -
  let ?ref = "\<lparr>dayNumber = 19725, msOfDay = 36000000\<rparr>"
  have n: "''friday'' \<in> set daysOfWeek" by (simp add: daysOfWeek_def)
  have t: "toLowerCase ''this Friday'' = ''this '' @ ''friday''" by code_simp
  have x: "toLowerCase ''next Friday'' = ''next '' @ ''friday''" by code_simp
  from parseRelativeTime_weekday [OF n t x, of fixedOffset ?ref]
  obtain k target where
    a: "0 \<le> k" and b: "k \<le> 6" and c: "target = setDay fixedOffset k ?ref"
    and d: "parseRelativeTime fixedOffset ''this Friday'' ?ref =
        Some (Instant (if dayNumber target < dayNumber ?ref
                       then addDays fixedOffset 7 target else target))"
    and e: "parseRelativeTime fixedOffset ''next Friday'' ?ref =
        Some (Instant (addDays fixedOffset 7 target))"
    by blast
  have v: "parseRelativeTime fixedOffset ''this Friday'' ?ref \<noteq>
           parseRelativeTime fixedOffset ''next Friday'' ?ref"
    by code_simp
  have f: "19725 \<le> dayNumber target"
  proof (rule ccontr)
    assume "\<not> 19725 \<le> dayNumber target"
    then have "dayNumber target < dayNumber ?ref" by simp
    with d e have "parseRelativeTime fixedOffset ''this Friday'' ?ref =
        parseRelativeTime fixedOffset ''next Friday'' ?ref"
      by simp
    with v show False by simp
  qed
  with d have d': "parseRelativeTime fixedOffset ''this Friday'' ?ref = Some (Instant target)"
    by simp
  from a b c f d' e have "0 \<le> k \<and> k \<le> 6 \<and> target = setDay fixedOffset k ?ref \<and>
      19725 \<le> dayNumber target \<and>
      parseRelativeTime fixedOffset ''this Friday'' ?ref = Some (Instant target) \<and>
      parseRelativeTime fixedOffset ''next Friday'' ?ref =
        Some (Instant (addDays fixedOffset 7 target))"
    by (intro conjI)
  then have "\<exists>n target. 0 \<le> n \<and> n \<le> 6 \<and> target = setDay fixedOffset n ?ref \<and>
      19725 \<le> dayNumber target \<and>
      parseRelativeTime fixedOffset ''this Friday'' ?ref = Some (Instant target) \<and>
      parseRelativeTime fixedOffset ''next Friday'' ?ref =
        Some (Instant (addDays fixedOffset 7 target))"
    by (rule_tac x = k in exI, rule_tac x = target in exI)
  with n t x show ?thesis by (intro conjI)
qed

text \<open>
  Claim C6 as stated fails. From Wednesday, 3 January 2024 (day 19725), in a timezone at a
  fixed offset, \<^verbatim>\<open>this Monday\<close> has passed, and \<^verbatim>\<open>next Monday\<close> resolves to the same day as
  \<^verbatim>\<open>this Monday\<close>, not to a day one week beyond it. Also, \<^verbatim>\<open>this Friday\<close> resolves to the day
  after the reference day, a Thursday, not to the Friday two days later: the index of the
  name in a list that starts with Monday is given to a library function that counts from
  Sunday.
\<close>

theorem parseRelativeTime_weekday_counterexample:
  "weekday 19725 = 3 \<and>
   parseRelativeTime fixedOffset ''this Monday'' \<lparr>dayNumber = 19725, msOfDay = 36000000\<rparr> =
     Some (Instant \<lparr>dayNumber = 19729, msOfDay = 36000000\<rparr>) \<and>
   parseRelativeTime fixedOffset ''next Monday'' \<lparr>dayNumber = 19725, msOfDay = 36000000\<rparr> =
     Some (Instant \<lparr>dayNumber = 19729, msOfDay = 36000000\<rparr>) \<and>
   parseRelativeTime fixedOffset ''this Friday'' \<lparr>dayNumber = 19725, msOfDay = 36000000\<rparr> =
     Some (Instant \<lparr>dayNumber = 19725 + 1, msOfDay = 36000000\<rparr>) \<and>
   weekday (19725 + 1) = 4"
  by code_simp

text \<open>
  Where the clocks change, the time of day follows the timezone. From Monday, 4 March 2024
  (day 19786), at 02:30, in a timezone whose clocks go from 02:00 to 03:00 on Sunday,
  10 March (day 19792): the target of \<^verbatim>\<open>this monday\<close> is Sunday, 3 March, which has
  passed, and one week after it 02:30 does not exist; the result is 03:30 on 10 March.
\<close>

lemma parseRelativeTime_clock_change:
  "parseRelativeTime (springForward 19792) ''this monday''
     \<lparr>dayNumber = 19786, msOfDay = 9000000\<rparr> =
   Some (Instant \<lparr>dayNumber = 19792, msOfDay = 12600000\<rparr>)"
  by code_simp

section \<open>Properties of the slot finder\<close>

lemma slotLoop_stop:
  "\<not> c < e \<Longrightarrow> slotLoop e b d c acc = acc"
  by (subst slotLoop.simps) simp

lemma slotLoop_jump:
  "c < e \<Longrightarrow> getHours (c + d * msPerMinute) > businessHoursEnd \<Longrightarrow>
   slotLoop e b d c acc = slotLoop e b d (setHours businessHoursStart (nextDate c)) acc"
  by (subst slotLoop.simps) (simp add: Let_def)

lemma slotLoop_step:
  "c < e \<Longrightarrow> \<not> getHours (c + d * msPerMinute) > businessHoursEnd \<Longrightarrow>
   slotLoop e b d c acc =
     slotLoop e b d (c + 30 * msPerMinute)
       (if \<not> list_ex (conflicts c (c + d * msPerMinute)) b
        then acc @ [(c, c + d * msPerMinute)] else acc)"
  by (subst slotLoop.simps) (simp add: Let_def)

lemma slotLoop_append_all:
  fixes unused :: "(date \<times> date) list"
  shows "\<forall>acc. slotLoop e b d c acc = acc @ slotLoop e b d c []"
proof (induct e b d c unused rule: slotLoop.induct)
  case (1 e b d c unused)
  show ?case
  proof (cases "c < e")
    case False
    then show ?thesis by (simp add: slotLoop_stop)
  next
    case True
    show ?thesis
    proof (cases "getHours (c + d * msPerMinute) > businessHoursEnd")
      case hi: True
      from "1.hyps"(1) [OF True refl hi]
      have ih: "\<forall>acc. slotLoop e b d (setHours businessHoursStart (nextDate c)) acc =
            acc @ slotLoop e b d (setHours businessHoursStart (nextDate c)) []" .
      show ?thesis
      proof
        fix acc
        have "slotLoop e b d c acc =
            slotLoop e b d (setHours businessHoursStart (nextDate c)) acc"
          using True hi by (rule slotLoop_jump)
        also have "\<dots> = acc @ slotLoop e b d (setHours businessHoursStart (nextDate c)) []"
          using ih by (rule spec)
        also have "slotLoop e b d (setHours businessHoursStart (nextDate c)) [] =
            slotLoop e b d c []"
          using True hi by (rule slotLoop_jump [symmetric])
        finally show "slotLoop e b d c acc = acc @ slotLoop e b d c []" .
      qed
    next
      case lo: False
      let ?new = "if \<not> list_ex (conflicts c (c + d * msPerMinute)) b
                  then [(c, c + d * msPerMinute)] else []"
      from "1.hyps"(2) [OF True refl lo refl refl]
      have ih: "\<forall>acc. slotLoop e b d (c + 30 * msPerMinute) acc =
               acc @ slotLoop e b d (c + 30 * msPerMinute) []" .
      show ?thesis
      proof
        fix acc
        have "slotLoop e b d c acc = slotLoop e b d (c + 30 * msPerMinute) (acc @ ?new)"
          using True lo by (simp add: slotLoop_step)
        also have "\<dots> = (acc @ ?new) @ slotLoop e b d (c + 30 * msPerMinute) []"
          using ih by (rule spec)
        finally have l: "slotLoop e b d c acc =
            (acc @ ?new) @ slotLoop e b d (c + 30 * msPerMinute) []" .
        have "slotLoop e b d c [] = slotLoop e b d (c + 30 * msPerMinute) ?new"
          using True lo by (simp add: slotLoop_step)
        also have "\<dots> = ?new @ slotLoop e b d (c + 30 * msPerMinute) []"
          using ih by (rule spec)
        finally have r: "slotLoop e b d c [] = ?new @ slotLoop e b d (c + 30 * msPerMinute) []" .
        from l r show "slotLoop e b d c acc = acc @ slotLoop e b d c []" by simp
      qed
    qed
  qed
qed

lemma slotLoop_append:
  "slotLoop e b d c acc = acc @ slotLoop e b d c []"
  using slotLoop_append_all by (rule spec)

text \<open>The loop from the empty list, one step unfolded.\<close>

lemma slotLoop_step_Nil:
  "c < e \<Longrightarrow> \<not> getHours (c + d * msPerMinute) > businessHoursEnd \<Longrightarrow>
   slotLoop e b d c [] =
     (if list_ex (conflicts c (c + d * msPerMinute)) b then [] else [(c, c + d * msPerMinute)]) @
     slotLoop e b d (c + 30 * msPerMinute) []"
proof -
  assume a: "c < e" "\<not> getHours (c + d * msPerMinute) > businessHoursEnd"
  have "slotLoop e b d c [] =
     slotLoop e b d (c + 30 * msPerMinute)
       (if \<not> list_ex (conflicts c (c + d * msPerMinute)) b
        then [] @ [(c, c + d * msPerMinute)] else [])"
    using a by (rule slotLoop_step)
  also have "\<dots> =
     (if \<not> list_ex (conflicts c (c + d * msPerMinute)) b
        then [] @ [(c, c + d * msPerMinute)] else []) @
     slotLoop e b d (c + 30 * msPerMinute) []"
    by (rule slotLoop_append)
  finally show ?thesis by simp
qed

lemma conflicts_overlaps: "conflicts c t busy = overlaps (c, t) busy"
  by (simp add: conflicts_def overlaps_def Let_def)

lemma slotLoop_filter:
  fixes unused :: "(date \<times> date) list"
  shows "slotLoop e b d c [] =
     filter (\<lambda>slot. \<forall>busy \<in> set b. \<not> overlaps slot busy) (slotLoop e [] d c [])"
proof (induct e b d c unused rule: slotLoop.induct)
  case (1 e b d c unused)
  show ?case
  proof (cases "c < e")
    case False
    then show ?thesis by (simp add: slotLoop_stop)
  next
    case True
    show ?thesis
    proof (cases "getHours (c + d * msPerMinute) > businessHoursEnd")
      case hi: True
      have "slotLoop e b d c [] = slotLoop e b d (setHours businessHoursStart (nextDate c)) []"
        using True hi by (rule slotLoop_jump)
      also have "\<dots> = filter (\<lambda>slot. \<forall>busy \<in> set b. \<not> overlaps slot busy)
          (slotLoop e [] d (setHours businessHoursStart (nextDate c)) [])"
        using True hi by (rule "1.hyps"(1) [OF _ refl])
      also have "slotLoop e [] d (setHours businessHoursStart (nextDate c)) [] =
          slotLoop e [] d c []"
        using True hi by (rule slotLoop_jump [symmetric])
      finally show ?thesis .
    next
      case lo: False
      from "1.hyps"(2) [OF True refl lo refl refl]
      have ih: "slotLoop e b d (c + 30 * msPerMinute) [] =
          filter (\<lambda>slot. \<forall>busy \<in> set b. \<not> overlaps slot busy)
            (slotLoop e [] d (c + 30 * msPerMinute) [])" .
      have free: "list_ex (conflicts c (c + d * msPerMinute)) b \<longleftrightarrow>
          \<not> (\<forall>busy \<in> set b. \<not> overlaps (c, c + d * msPerMinute) busy)"
        by (simp add: list_ex_iff conflicts_overlaps)
      have l: "slotLoop e b d c [] =
          (if list_ex (conflicts c (c + d * msPerMinute)) b then []
           else [(c, c + d * msPerMinute)]) @ slotLoop e b d (c + 30 * msPerMinute) []"
        using True lo by (rule slotLoop_step_Nil)
      have r: "slotLoop e [] d c [] =
          (if list_ex (conflicts c (c + d * msPerMinute)) [] then []
           else [(c, c + d * msPerMinute)]) @ slotLoop e [] d (c + 30 * msPerMinute) []"
        using True lo by (rule slotLoop_step_Nil)
      show ?thesis
        unfolding l r ih by (simp add: free)
    qed
  qed
qed


text \<open>
  Claim C7. The overlap test of the slot finder accepts a candidate exactly when neither
  its start nor its end falls within a busy interval, where abutting an interval is no
  overlap: the slots returned are the candidates of the scan (the slots returned when
  nothing is busy) that overlap no busy interval. With one busy interval from 10:00 to
  10:30 and duration 30, the candidate from 09:30 to 10:00 is accepted, the candidate that
  starts at 10:00 is rejected, and the candidate that starts at 10:30 is accepted; the
  candidate that starts at 10:00 is the only one rejected.
\<close>

theorem findAvailableSlots_overlap_test:
  "findAvailableSlots startDate endDate busySlots duration =
     filter (\<lambda>slot. \<forall>busy \<in> set busySlots. \<not> overlaps slot busy)
       (findAvailableSlots startDate endDate [] duration) \<and>
   (clock 9 30, clock 10 0) \<in> set (findAvailableSlots dayStart dayEnd [(clock 10 0, clock 10 30)] 30) \<and>
   (clock 10 0, clock 10 30) \<in> set (findAvailableSlots dayStart dayEnd [] 30) \<and>
   (clock 10 0, clock 10 30) \<notin> set (findAvailableSlots dayStart dayEnd [(clock 10 0, clock 10 30)] 30) \<and>
   (clock 10 30, clock 11 0) \<in> set (findAvailableSlots dayStart dayEnd [(clock 10 0, clock 10 30)] 30) \<and>
   findAvailableSlots dayStart dayEnd [(clock 10 0, clock 10 30)] 30 =
     removeAll (clock 10 0, clock 10 30) (findAvailableSlots dayStart dayEnd [] 30)"
proof -
  have g: "findAvailableSlots startDate endDate busySlots duration =
     filter (\<lambda>slot. \<forall>busy \<in> set busySlots. \<not> overlaps slot busy)
       (findAvailableSlots startDate endDate [] duration)"
    unfolding findAvailableSlots_def Let_def by (rule slotLoop_filter)
  have a: "(clock 9 30, clock 10 0) \<in>
      set (findAvailableSlots dayStart dayEnd [(clock 10 0, clock 10 30)] 30)"
    by code_simp
  have b: "(clock 10 0, clock 10 30) \<in> set (findAvailableSlots dayStart dayEnd [] 30)"
    by code_simp
  have c: "(clock 10 0, clock 10 30) \<notin>
      set (findAvailableSlots dayStart dayEnd [(clock 10 0, clock 10 30)] 30)"
    by code_simp
  have d: "(clock 10 30, clock 11 0) \<in>
      set (findAvailableSlots dayStart dayEnd [(clock 10 0, clock 10 30)] 30)"
    by code_simp
  have e: "findAvailableSlots dayStart dayEnd [(clock 10 0, clock 10 30)] 30 =
     removeAll (clock 10 0, clock 10 30) (findAvailableSlots dayStart dayEnd [] 30)"
    by code_simp
  from g a b c d e show ?thesis by (intro conjI)
qed

text \<open>
  With one busy interval from 12:00 to 13:00 and duration 60, the candidates that start at
  11:30, 12:00 and 12:30 are rejected; the ones from 11:00 to 12:00 and from 13:00 to 14:00
  abut the interval and are accepted.
\<close>

theorem findAvailableSlots_overlap_test_witness:
  "findAvailableSlots dayStart dayEnd [(clock 12 0, clock 13 0)] 60 =
     [(clock 9 0, clock 10 0), (clock 9 30, clock 10 30), (clock 10 0, clock 11 0),
      (clock 10 30, clock 11 30), (clock 11 0, clock 12 0), (clock 13 0, clock 14 0),
      (clock 13 30, clock 14 30), (clock 14 0, clock 15 0), (clock 14 30, clock 15 30),
      (clock 15 0, clock 16 0), (clock 15 30, clock 16 30), (clock 16 0, clock 17 0),
      (clock 16 30, clock 17 30)]"
proof -
  have scan: "findAvailableSlots dayStart dayEnd [] 60 =
     [(clock 9 0, clock 10 0), (clock 9 30, clock 10 30), (clock 10 0, clock 11 0),
      (clock 10 30, clock 11 30), (clock 11 0, clock 12 0), (clock 11 30, clock 12 30),
      (clock 12 0, clock 13 0), (clock 12 30, clock 13 30), (clock 13 0, clock 14 0),
      (clock 13 30, clock 14 30), (clock 14 0, clock 15 0), (clock 14 30, clock 15 30),
      (clock 15 0, clock 16 0), (clock 15 30, clock 16 30), (clock 16 0, clock 17 0),
      (clock 16 30, clock 17 30)]"
    by code_simp
  from findAvailableSlots_overlap_test [of dayStart dayEnd "[(clock 12 0, clock 13 0)]" 60]
  have "findAvailableSlots dayStart dayEnd [(clock 12 0, clock 13 0)] 60 =
     filter (\<lambda>slot. \<forall>busy \<in> set [(clock 12 0, clock 13 0)]. \<not> overlaps slot busy)
       (findAvailableSlots dayStart dayEnd [] 60)"
    by (rule conjunct1)
  also have "\<dots> =
     [(clock 9 0, clock 10 0), (clock 9 30, clock 10 30), (clock 10 0, clock 11 0),
      (clock 10 30, clock 11 30), (clock 11 0, clock 12 0), (clock 13 0, clock 14 0),
      (clock 13 30, clock 14 30), (clock 14 0, clock 15 0), (clock 14 30, clock 15 30),
      (clock 15 0, clock 16 0), (clock 15 30, clock 16 30), (clock 16 0, clock 17 0),
      (clock 16 30, clock 17 30)]"
    unfolding scan by (simp add: overlaps_def clock_def msPerHour_def msPerMinute_def)
  finally show ?thesis .
qed

text \<open>
  Claim C1. Every slot that \<^verbatim>\<open>findAvailableSlots\<close> returns should lie within business hours
  and intersect no busy interval. The code returns slots that do not. For a free day and
  the default duration 30 it returns the slot from 17:00 to 17:30: the test compares the
  hour of the slot's end with 17, so an end up to 17:59 passes. With a busy interval from
  09:15 to 09:45 and duration 60 it returns the slot from 09:00 to 10:00: the test looks
  at the two ends of the slot only, and the interval lies between them.
\<close>

theorem findAvailableSlots_escapes:
  "(clock 17 0, clock 17 30) \<in> set (findAvailableSlots dayStart dayEnd [] 30) \<and>
   \<not> withinBusinessHours (clock 17 0, clock 17 30) \<and>
   (clock 9 0, clock 10 0) \<in>
     set (findAvailableSlots dayStart dayEnd [(clock 9 15, clock 9 45)] 60) \<and>
   intersects (clock 9 0, clock 10 0) (clock 9 15, clock 9 45)"
  by code_simp

end
